theory Spec2Isabelle
  imports Main
begin

section \<open>Configuration (config.go)\<close>

text \<open>
  Go's \<open>int\<close> and \<open>time.Duration\<close> are 64-bit; every value below stays far inside that
  range (pool sizes, counters that move by one, a few hundred seconds in nanoseconds), so
  they are modelled as unbounded integers. Durations and instants are nanoseconds.
\<close>

definition second :: int where
  "second = 1000000000"

definition defMinPoopSize :: int where "defMinPoopSize = 1"
definition defMaxPoopSize :: int where "defMaxPoopSize = 1"
definition defIdleTimeoutSec :: int where "defIdleTimeoutSec = 5 * 60"
definition defComObject :: string where "defComObject = ''V83.COMConnector''"
definition defWaitConnTimeoutSec :: int where "defWaitConnTimeoutSec = 10"
definition defCleanupIdleConnSec :: int where "defCleanupIdleConnSec = 60"
definition defConnCloseTimeout :: int where "defConnCloseTimeout = 30"

record Config =
  ConnectionString :: string
  CommandExec :: string
  MaxPoolSize :: int
  MinPoolSize :: int
  IdleTimeout :: int
  COMObjectID :: string
  WaitConnTimeout :: int
  CleanupIdleConn :: int
  ConnCloseTimeout :: int

text \<open>\<open>SetDefaults\<close> is a sequence of independent \<open>if\<close> statements, each on the
  configuration left by the previous one.\<close>

definition SetDefaults :: "Config \<Rightarrow> Config" where
  "SetDefaults c0 =
     (let c1 = (if MaxPoolSize c0 \<le> 0 then c0\<lparr>MaxPoolSize := defMaxPoopSize\<rparr> else c0);
          c2 = (if MinPoolSize c1 < 0 then c1\<lparr>MinPoolSize := defMinPoopSize\<rparr> else c1);
          c3 = (if MinPoolSize c2 > MaxPoolSize c2 then c2\<lparr>MinPoolSize := MaxPoolSize c2\<rparr> else c2);
          c4 = (if IdleTimeout c3 \<le> 0 then c3\<lparr>IdleTimeout := defIdleTimeoutSec * second\<rparr> else c3);
          c5 = (if WaitConnTimeout c4 \<le> 0
                then c4\<lparr>WaitConnTimeout := defWaitConnTimeoutSec * second\<rparr> else c4);
          c6 = (if CleanupIdleConn c5 \<le> 0
                then c5\<lparr>CleanupIdleConn := defCleanupIdleConnSec * second\<rparr> else c5);
          c7 = (if ConnCloseTimeout c6 \<le> 0
                then c6\<lparr>ConnCloseTimeout := defConnCloseTimeout * second\<rparr> else c6)
      in (if COMObjectID c7 = [] then c7\<lparr>COMObjectID := defComObject\<rparr> else c7))"

section \<open>Errors, panics and results\<close>

text \<open>
  Each \<open>fmt.Errorf\<close> of the package is one constructor; an error wrapped with \<open>%w\<close>
  carries the wrapped error. \<open>BackendError\<close> is an error reported by the COM library
  (initialisation of a worker, or a method call), which the pool treats as opaque.
\<close>

datatype error =
    BackendError string
  | MaxPoolSizeReached
  | InitConnFailed int error
  | CreateNewConnFailed error
  | CreateInitialConnFailed error
  | WaitTimeout
  | PoolShutdown
  | NotAString

text \<open>The run-time panics the code can raise: \<open>close\<close> on a channel that is already
  closed, and a type assertion \<open>x.(string)\<close> on a value that is not a string.\<close>

datatype panic = CloseOfClosedChannel | TypeAssertionFailed

datatype 'a outcome = Returned 'a | Panicked panic

text \<open>A value of interface type \<open>any\<close>, as far as the pool tells values apart: \<open>nil\<close>,
  a string, or a value of some other dynamic type.\<close>

datatype any = AnyNil | AnyString string | AnyOther

text \<open>\<open>Result\<close> (gocom1c.go). For \<open>Error\<close>, \<open>None\<close> is \<open>nil\<close>.\<close>

record Result =
  Value :: any
  Error :: "error option"

text \<open>
  What a call into the COM library gives back is outside the repository. A successful
  call yields a variant whose Go value is a string, a \<open>fmt.Stringer\<close> (carried here
  with what its \<open>String\<close> method returns) or something else (carried with its \<open>%v\<close>
  rendering). The backend is a parameter: it maps the queued command to the outcome of
  \<open>oleutil.CallMethod\<close> for it.
\<close>

datatype variant = VString string | VStringer string | VOther string

type_synonym backend = "string \<Rightarrow> string \<Rightarrow> nat \<Rightarrow> error + variant"

section \<open>Connections (conn.go)\<close>

text \<open>
  A queued command is the closure built by \<open>COMConnection.ExecuteCommand\<close>: it captures
  the command, the parameters and the private result channel of that call. Result
  channels are named by natural numbers.
\<close>

record command =
  cmd_name :: string
  cmd_params :: string
  resultChan :: nat

text \<open>
  \<open>COMConnection\<close>. \<open>quit\<close> is a channel that only ever gets closed: the field says
  whether it is closed. \<open>commands\<close> is the content of the buffered channel, oldest first.
  The COM handles (\<open>v8\<close>, \<open>commandExec\<close>, \<open>commandExecParent\<close>) belong to
  the worker and the locks and the wait group carry no data; they are left out.
  \<open>worker\<close> is the place of the connection's worker goroutine in the loop of
  \<open>comWorker\<close>: waiting in the \<open>select\<close>, inside the call \<open>fn()\<close> of a command, or
  returned.
\<close>

datatype wpc = AtSelect | Running command | Exited

record COMConnection =
  conn_id :: int
  quit :: bool
  commands :: "command list"
  lastUsed :: int
  useCount :: int
  busy :: bool
  worker :: wpc

section \<open>The pool (gocom1c.go)\<close>

text \<open>
  \<open>COMPool\<close>. Connections are heap objects shared through pointers: \<open>heap\<close> maps an
  address to the object, and \<open>createConnection\<close> allocates the object with id \<open>k\<close> at
  address \<open>k\<close>. The slice \<open>p.connections\<close> is a view of an underlying array:
  \<open>connections\<close> is the slice itself (its first \<open>len\<close> slots) and \<open>backing\<close> the
  written slots of the array, which a \<open>range\<close> loop begun on a longer slice still reads
  after the slice has shrunk in place. \<open>freeConn\<close> is the content of the buffered
  channel, oldest first, and \<open>freeConn_cap\<close> its capacity. \<open>shutdown\<close> says whether
  the shutdown channel is closed, \<open>closeOnce\<close> whether the \<open>sync.Once\<close> has run.
\<close>

record COMPool =
  cfg :: Config
  connections :: "int list"
  backing :: "int list"
  freeConn :: "int list"
  freeConn_cap :: nat
  shutdown :: bool
  closeOnce :: bool
  nextID :: int
  activeCount :: int
  heap :: "int \<Rightarrow> COMConnection"

text \<open>Removing the slot at index \<open>i\<close> with
  \<open>append(p.connections[:i], p.connections[i+1:]...)\<close> shifts the later elements down
  inside the same array: the slice gets one shorter and the array slot behind it keeps
  its old content.\<close>

definition remove_at :: "nat \<Rightarrow> COMPool \<Rightarrow> COMPool" where
  "remove_at i p =
     (let cs = take i (connections p) @ drop (Suc i) (connections p)
      in p\<lparr>connections := cs, backing := cs @ drop (length cs) (backing p)\<rparr>)"

text \<open>The search loop of \<open>closeConnection\<close>: the first index whose connection has the
  id looked for.\<close>

fun find_id :: "(int \<Rightarrow> COMConnection) \<Rightarrow> int \<Rightarrow> int list \<Rightarrow> nat \<Rightarrow> nat option" where
  "find_id h k [] i = None"
| "find_id h k (c # cs) i = (if conn_id (h c) = k then Some i else find_id h k cs (Suc i))"

text \<open>\<open>closeConnection\<close>: close the quit channel (a panic if it is closed already), wait
  for the worker for at most \<open>ConnCloseTimeout\<close> (no effect on the pool), then drop the
  connection from the slice and count it out, if it is found there.\<close>

definition closeConnection :: "int \<Rightarrow> COMPool \<Rightarrow> panic option \<times> COMPool" where
  "closeConnection conn p =
     (if quit (heap p conn) then (Some CloseOfClosedChannel, p)
      else
        let p1 = p\<lparr>heap := (heap p)(conn := (heap p conn)\<lparr>quit := True\<rparr>)\<rparr>
        in (case find_id (heap p1) (conn_id (heap p1 conn)) (connections p1) 0 of
              None \<Rightarrow> (None, p1)
            | Some i \<Rightarrow> (None, (remove_at i p1)\<lparr>activeCount := activeCount p1 - 1\<rparr>)))"

text \<open>\<open>createConnection\<close>. \<open>ready\<close> is what the new worker sends on the ready channel
  (\<open>None\<close> is \<open>nil\<close>: initialised), \<open>now\<close> the reading of the clock. The worker of
  the new object has either reached its loop or, having reported an error, returned.\<close>

definition new_conn :: "int \<Rightarrow> int \<Rightarrow> error option \<Rightarrow> COMConnection" where
  "new_conn c now ready =
     \<lparr>conn_id = c, quit = False, commands = [], lastUsed = now, useCount = 0, busy = False,
      worker = (case ready of None \<Rightarrow> AtSelect | Some err \<Rightarrow> Exited)\<rparr>"

definition createConnection :: "error option \<Rightarrow> int \<Rightarrow> COMPool \<Rightarrow> error option \<times> COMPool" where
  "createConnection ready now p =
     (if activeCount p \<ge> MaxPoolSize (cfg p) then (Some MaxPoolSizeReached, p)
      else
        let c = nextID p;
            p1 = p\<lparr>heap := (heap p)(c := new_conn c now ready), nextID := nextID p + 1\<rparr>
        in (case ready of
              Some err \<Rightarrow> (Some (InitConnFailed c err), p1)
            | None \<Rightarrow>
                let cs = connections p1 @ [c];
                    p2 = p1\<lparr>connections := cs, backing := cs @ drop (length cs) (backing p1),
                            activeCount := activeCount p1 + 1\<rparr>
                in (None, if length (freeConn p2) < freeConn_cap p2
                          then p2\<lparr>freeConn := freeConn p2 @ [c]\<rparr> else p2)))"

text \<open>\<open>CloseConnections\<close>: the \<open>range\<close> loop fixes the number of rounds when it starts and
  reads slot \<open>i\<close> of the array in round \<open>i\<close>; a panic in \<open>closeConnection\<close> ends the
  function before the slice is cleared.\<close>

fun CloseConnections_range :: "nat list \<Rightarrow> COMPool \<Rightarrow> panic option \<times> COMPool" where
  "CloseConnections_range [] p = (None, p)"
| "CloseConnections_range (i # is) p =
     (case closeConnection (backing p ! i) p of
        (Some pn, p') \<Rightarrow> (Some pn, p')
      | (None, p') \<Rightarrow> CloseConnections_range is p')"

definition CloseConnections :: "COMPool \<Rightarrow> panic option \<times> COMPool" where
  "CloseConnections p =
     (case CloseConnections_range [0..<length (connections p)] p of
        (Some pn, p') \<Rightarrow> (Some pn, p')
      | (None, p') \<Rightarrow> (None, p'\<lparr>connections := [], backing := [], activeCount := 0\<rparr>))"

text \<open>\<open>Close\<close>: the body runs under \<open>sync.Once\<close>, which counts a call as done also when
  the body panics. The error returned is always \<open>nil\<close>.\<close>

definition Close :: "COMPool \<Rightarrow> error option outcome \<times> COMPool" where
  "Close p =
     (if closeOnce p then (Returned None, p)
      else
        (case CloseConnections (p\<lparr>closeOnce := True, shutdown := True\<rparr>) of
           (Some pn, p') \<Rightarrow> (Panicked pn, p')
         | (None, p') \<Rightarrow> (Returned None, p')))"

text \<open>\<open>cleanup\<close>, one tick of the idle reaper. The \<open>select\<close> with a \<open>default\<close> takes the
  oldest free connection if there is one; when it is not the connection under
  inspection it is sent back, to the end of the channel.\<close>

fun cleanup_range :: "int \<Rightarrow> nat list \<Rightarrow> COMPool \<Rightarrow> panic option \<times> COMPool" where
  "cleanup_range now [] p = (None, p)"
| "cleanup_range now (i # is) p =
     (if activeCount p \<le> MinPoolSize (cfg p) then (None, p)
      else
        let conn = backing p ! i;
            idle = (\<not> busy (heap p conn) \<and> now - lastUsed (heap p conn) > IdleTimeout (cfg p))
        in if idle then
             (case freeConn p of
                [] \<Rightarrow> cleanup_range now is p
              | c # rest \<Rightarrow>
                  if conn_id (heap p c) = conn_id (heap p conn) then
                    (case closeConnection conn (p\<lparr>freeConn := rest\<rparr>) of
                       (Some pn, p') \<Rightarrow> (Some pn, p')
                     | (None, p') \<Rightarrow> cleanup_range now is p')
                  else cleanup_range now is (p\<lparr>freeConn := rest @ [c]\<rparr>))
           else cleanup_range now is p)"

definition cleanup :: "int \<Rightarrow> COMPool \<Rightarrow> panic option \<times> COMPool" where
  "cleanup now p =
     (if activeCount p \<le> MinPoolSize (cfg p) then (None, p)
      else cleanup_range now [0..<length (connections p)] p)"

text \<open>\<open>InitConnections\<close>: \<open>MinPoolSize\<close> rounds of \<open>createConnection\<close>, stopping at
  the first error. \<open>ready\<close> and \<open>clock\<close> give, for the connection id being created, what
  its worker reports and the time of its creation.\<close>

fun InitConnections_loop ::
  "(int \<Rightarrow> error option) \<Rightarrow> (int \<Rightarrow> int) \<Rightarrow> nat \<Rightarrow> COMPool \<Rightarrow> error option \<times> COMPool" where
  "InitConnections_loop ready clock 0 p = (None, p)"
| "InitConnections_loop ready clock (Suc k) p =
     (case createConnection (ready (nextID p)) (clock (nextID p)) p of
        (Some err, p') \<Rightarrow> (Some err, p')
      | (None, p') \<Rightarrow> InitConnections_loop ready clock k p')"

definition InitConnections ::
  "(int \<Rightarrow> error option) \<Rightarrow> (int \<Rightarrow> int) \<Rightarrow> COMPool \<Rightarrow> error option \<times> COMPool" where
  "InitConnections ready clock p =
     InitConnections_loop ready clock (nat (MinPoolSize (cfg p))) p"

text \<open>An address that holds no connection yet reads as this object; no operation of the
  pool follows a pointer before \<open>createConnection\<close> has stored an object there.\<close>

definition unallocated :: COMConnection where
  "unallocated = \<lparr>conn_id = - 1, quit = False, commands = [], lastUsed = 0, useCount = 0,
                   busy = False, worker = Exited\<rparr>"

definition new_pool :: "Config \<Rightarrow> COMPool" where
  "new_pool c =
     \<lparr>cfg = c, connections = [], backing = [], freeConn = [],
      freeConn_cap = nat (MaxPoolSize c), shutdown = False, closeOnce = False,
      nextID = 0, activeCount = 0, heap = (\<lambda>a. unallocated)\<rparr>"

text \<open>\<open>NewCOMPool\<close>. The second component is the pool object as the call leaves it; the
  first says what the caller gets: \<open>Returned None\<close> is the pool with a \<open>nil\<close> error,
  \<open>Returned (Some err)\<close> is \<open>nil, err\<close>, and a panic inside \<open>Close\<close> leaves the call by
  that panic.\<close>

definition NewCOMPool ::
  "(int \<Rightarrow> error option) \<Rightarrow> (int \<Rightarrow> int) \<Rightarrow> Config \<Rightarrow> error option outcome \<times> COMPool" where
  "NewCOMPool ready clock c =
     (case InitConnections ready clock (new_pool (SetDefaults c)) of
        (Some err, p) \<Rightarrow>
          (case Close p of
             (Panicked pn, p') \<Rightarrow> (Panicked pn, p')
           | (Returned x, p') \<Rightarrow> (Returned (Some (CreateInitialConnFailed err)), p'))
      | (None, p) \<Rightarrow> (Returned None, p))"

text \<open>
  \<open>GetConnection\<close> blocks in a \<open>select\<close> over the free channel, a timer and the shutdown
  channel. Which case fires is the environment's choice among the cases that can: the
  receive needs a connection in the channel; the shutdown case needs the channel closed;
  the timer fires only after \<open>WaitConnTimeout\<close> without either, so with nothing free and
  no shutdown. The events carry what the clock reads when the case runs and, for the
  timer, what the worker of a connection created then reports. A result of \<open>None\<close> means
  the call is still blocked: the next event cannot fire, or there is none.
\<close>

datatype select_case = FreeConnReady int | TimerFired int "error option" | ShutdownClosed

definition mark_busy :: "int \<Rightarrow> int \<Rightarrow> COMPool \<Rightarrow> COMPool" where
  "mark_busy now conn p =
     p\<lparr>heap := (heap p)(conn := (heap p conn)\<lparr>busy := True, lastUsed := now,
                                               useCount := useCount (heap p conn) + 1\<rparr>)\<rparr>"

fun GetConnection :: "select_case list \<Rightarrow> COMPool \<Rightarrow> ((error + int) \<times> COMPool) option" where
  "GetConnection [] p = None"
| "GetConnection (FreeConnReady now # evs) p =
     (case freeConn p of
        [] \<Rightarrow> None
      | conn # rest \<Rightarrow> Some (Inr conn, mark_busy now conn (p\<lparr>freeConn := rest\<rparr>)))"
| "GetConnection (TimerFired now ready # evs) p =
     (if freeConn p \<noteq> [] \<or> shutdown p then None
      else if activeCount p < MaxPoolSize (cfg p) then
        (case createConnection ready now p of
           (Some err, p') \<Rightarrow> Some (Inl (CreateNewConnFailed err), p')
         | (None, p') \<Rightarrow> GetConnection evs p')
      else Some (Inl WaitTimeout, p))"
| "GetConnection (ShutdownClosed # evs) p =
     (if shutdown p then Some (Inl PoolShutdown, p) else None)"

text \<open>\<open>ReleaseConnection\<close>: the \<open>select\<close> with a \<open>default\<close> sends when the channel has
  room and closes the connection otherwise.\<close>

definition clear_busy :: "int \<Rightarrow> int \<Rightarrow> COMPool \<Rightarrow> COMPool" where
  "clear_busy now conn p =
     p\<lparr>heap := (heap p)(conn := (heap p conn)\<lparr>busy := False, lastUsed := now\<rparr>)\<rparr>"

definition ReleaseConnection :: "int \<Rightarrow> int \<Rightarrow> COMPool \<Rightarrow> panic option \<times> COMPool" where
  "ReleaseConnection now conn p =
     (let p1 = clear_busy now conn p
      in if length (freeConn p1) < freeConn_cap p1
         then (None, p1\<lparr>freeConn := freeConn p1 @ [conn]\<rparr>)
         else closeConnection conn p1)"

text \<open>\<open>Execute\<close>: the deferred \<open>ReleaseConnection\<close> runs when \<open>fn\<close> has returned or
  panicked; a panic in the deferred call replaces what \<open>fn\<close> left. \<open>fn\<close> may never
  return (\<open>None\<close>), and then neither does \<open>Execute\<close>.\<close>

definition Execute ::
  "(int \<Rightarrow> COMPool \<Rightarrow> ((any \<times> error option) outcome \<times> COMPool) option) \<Rightarrow>
   select_case list \<Rightarrow> int \<Rightarrow> COMPool \<Rightarrow> ((any \<times> error option) outcome \<times> COMPool) option" where
  "Execute fn evs now p =
     (case GetConnection evs p of
        None \<Rightarrow> None
      | Some (Inl err, p1) \<Rightarrow> Some (Returned (AnyNil, Some err), p1)
      | Some (Inr conn, p1) \<Rightarrow>
          (case fn conn p1 of
             None \<Rightarrow> None
           | Some (res, p2) \<Rightarrow>
               (case ReleaseConnection now conn p2 of
                  (Some pn, p3) \<Rightarrow> Some (Panicked pn, p3)
                | (None, p3) \<Rightarrow> Some (res, p3))))"

section \<open>The worker loop and the command protocol (comWorker, COMConnection.ExecuteCommand)\<close>

text \<open>The type switch of the queued closure, turning the value of the variant into a
  string.\<close>

fun to_string :: "variant \<Rightarrow> string" where
  "to_string (VString v) = v"
| "to_string (VStringer v) = v"
| "to_string (VOther v) = v"

text \<open>The sends of the queued closure on its result channel, in order: one on the error
  path, followed by \<open>return\<close>, and one at the end of the other path.\<close>

definition closure_sends :: "backend \<Rightarrow> command \<Rightarrow> Result list" where
  "closure_sends be cmd =
     (case be (cmd_name cmd) (cmd_params cmd) (resultChan cmd) of
        Inl err \<Rightarrow> [\<lparr>Value = AnyNil, Error = Some err\<rparr>]
      | Inr res \<Rightarrow> [\<lparr>Value = AnyString (to_string res), Error = None\<rparr>])"

text \<open>
  One connection with its worker and its callers, as a transition system. The worker
  and every caller are goroutines; an event is one step of one of them:
  \<^item> \<open>Submit\<close>: a caller in \<open>COMConnection.ExecuteCommand\<close> makes its result channel
    (capacity 1) and sends the closure on \<open>commands\<close> (capacity 100);
  \<^item> \<open>CloseQuit\<close>: \<open>close(conn.quit)\<close> in \<open>closeConnection\<close>;
  \<^item> \<open>Pull\<close>: the worker's \<open>select\<close> takes the \<open>commands\<close> case and calls \<open>fn()\<close>;
  \<^item> \<open>Finish\<close>: the closure, back from the COM call, sends on its result channel and
    returns to the loop;
  \<^item> \<open>TakeQuit\<close>: the worker's \<open>select\<close> takes the \<open>quit\<close> case and the worker returns;
  \<^item> \<open>Receive\<close>: the caller takes the result from its channel.
  A step that cannot run in a state (a send on a full channel, a receive on an empty
  one, a \<open>select\<close> case that is not ready) gives \<open>None\<close>. The fields \<open>submitted\<close> and
  \<open>wlog\<close> are a record of what happened and influence nothing.
\<close>

datatype wevent = Submit string string | CloseQuit | Pull | Finish | TakeQuit | Receive nat

datatype wmark = Began nat | Pushed nat Result | Ended nat

record wsys =
  wconn :: COMConnection
  chans :: "nat \<Rightarrow> Result list"
  nextChan :: nat
  submitted :: "command list"
  wlog :: "wmark list"

text \<open>The sends of a closure, one after the other; each needs room in the channel.\<close>

fun send_all :: "nat \<Rightarrow> Result list \<Rightarrow> wsys \<Rightarrow> wsys option" where
  "send_all ch [] s = Some s"
| "send_all ch (r # rs) s =
     (if length (chans s ch) < 1
      then send_all ch rs (s\<lparr>chans := (chans s)(ch := chans s ch @ [r]),
                              wlog := wlog s @ [Pushed ch r]\<rparr>)
      else None)"

fun wstep :: "backend \<Rightarrow> wevent \<Rightarrow> wsys \<Rightarrow> wsys option" where
  "wstep be (Submit name params) s =
     (if length (commands (wconn s)) < 100 then
        let cmd = \<lparr>cmd_name = name, cmd_params = params, resultChan = nextChan s\<rparr>
        in Some (s\<lparr>wconn := (wconn s)\<lparr>commands := commands (wconn s) @ [cmd]\<rparr>,
                   chans := (chans s)(nextChan s := []),
                   nextChan := Suc (nextChan s),
                   submitted := submitted s @ [cmd]\<rparr>)
      else None)"
| "wstep be CloseQuit s =
     (if quit (wconn s) then None else Some (s\<lparr>wconn := (wconn s)\<lparr>quit := True\<rparr>\<rparr>))"
| "wstep be Pull s =
     (case (worker (wconn s), commands (wconn s)) of
        (AtSelect, cmd # rest) \<Rightarrow>
          Some (s\<lparr>wconn := (wconn s)\<lparr>commands := rest, worker := Running cmd\<rparr>,
                  wlog := wlog s @ [Began (resultChan cmd)]\<rparr>)
      | _ \<Rightarrow> None)"
| "wstep be Finish s =
     (case worker (wconn s) of
        Running cmd \<Rightarrow>
          (case send_all (resultChan cmd) (closure_sends be cmd) s of
             None \<Rightarrow> None
           | Some s' \<Rightarrow>
               Some (s'\<lparr>wconn := (wconn s')\<lparr>worker := AtSelect\<rparr>,
                        wlog := wlog s' @ [Ended (resultChan cmd)]\<rparr>))
      | _ \<Rightarrow> None)"
| "wstep be TakeQuit s =
     (if worker (wconn s) = AtSelect \<and> quit (wconn s)
      then Some (s\<lparr>wconn := (wconn s)\<lparr>worker := Exited\<rparr>\<rparr>) else None)"
| "wstep be (Receive ch) s =
     (case chans s ch of
        [] \<Rightarrow> None
      | r # rest \<Rightarrow> Some (s\<lparr>chans := (chans s)(ch := rest)\<rparr>))"

fun wrun :: "backend \<Rightarrow> wevent list \<Rightarrow> wsys \<Rightarrow> wsys option" where
  "wrun be [] s = Some s"
| "wrun be (e # es) s = (case wstep be e s of None \<Rightarrow> None | Some s' \<Rightarrow> wrun be es s')"

text \<open>The system around a connection \<open>c\<close> from the moment observation starts: no result
  channel made since then, and the next one gets a name that no command still held by the
  connection uses.\<close>

definition pending :: "COMConnection \<Rightarrow> command list" where
  "pending c = (case worker c of Running cmd \<Rightarrow> [cmd] | _ \<Rightarrow> []) @ commands c"

definition next_free :: "COMConnection \<Rightarrow> nat" where
  "next_free c = fold (\<lambda>cmd n. max n (Suc (resultChan cmd))) (pending c) 0"

definition winit :: "COMConnection \<Rightarrow> wsys" where
  "winit c =
     \<lparr>wconn = c, chans = (\<lambda>ch. []), nextChan = next_free c, submitted = [], wlog = []\<rparr>"

text \<open>What the log says: the channels of the commands the worker began, in order; the
  results sent on a channel; and that the worker's calls do not overlap, each \<open>Began\<close>
  being followed by the sends and the \<open>Ended\<close> of the same command before the next.\<close>

fun began :: "wmark list \<Rightarrow> nat list" where
  "began [] = []"
| "began (Began ch # l) = ch # began l"
| "began (m # l) = began l"

fun ended :: "wmark list \<Rightarrow> nat list" where
  "ended [] = []"
| "ended (Ended ch # l) = ch # ended l"
| "ended (m # l) = ended l"

fun pushes :: "nat \<Rightarrow> wmark list \<Rightarrow> Result list" where
  "pushes ch [] = []"
| "pushes ch (Pushed c r # l) = (if c = ch then r # pushes ch l else pushes ch l)"
| "pushes ch (m # l) = pushes ch l"

fun serial :: "nat option \<Rightarrow> wmark list \<Rightarrow> bool" where
  "serial cur [] = True"
| "serial cur (Began ch # l) = (cur = None \<and> serial (Some ch) l)"
| "serial cur (Pushed ch r # l) = (cur = Some ch \<and> serial cur l)"
| "serial cur (Ended ch # l) = (cur = Some ch \<and> serial None l)"

text \<open>
  \<open>COMConnection.ExecuteCommand\<close>, seen from its caller: make the channel and send the
  closure (\<open>Submit\<close>), let the system run (\<open>sched\<close>: the steps of the worker and of
  whoever else acts on the connection meanwhile), receive from the channel. \<open>None\<close>: the
  caller is blocked, in the send or in the receive. The type assertion on the value of a
  result without error panics when the value is not a string.
\<close>

definition conn_ExecuteCommand ::
  "backend \<Rightarrow> wevent list \<Rightarrow> string \<Rightarrow> string \<Rightarrow> COMConnection \<Rightarrow>
   ((string \<times> error option) outcome \<times> COMConnection) option" where
  "conn_ExecuteCommand be sched command params c =
     (let s0 = winit c; ch = nextChan s0
      in case wrun be (Submit command params # sched) s0 of
           None \<Rightarrow> None
         | Some s1 \<Rightarrow>
             (case chans s1 ch of
                [] \<Rightarrow> None
              | result # rest \<Rightarrow>
                  (case Error result of
                     Some err \<Rightarrow> Some (Returned ([], Some err), wconn s1)
                   | None \<Rightarrow>
                       (case Value result of
                          AnyString v \<Rightarrow> Some (Returned (v, None), wconn s1)
                        | _ \<Rightarrow> Some (Panicked TypeAssertionFailed, wconn s1)))))"

text \<open>The function literal that \<open>COMPool.ExecuteCommand\<close> hands to \<open>Execute\<close>: the string
  and the error of \<open>conn.ExecuteCommand\<close>, the string as a value of type \<open>any\<close>.\<close>

definition exec_fn ::
  "backend \<Rightarrow> wevent list \<Rightarrow> string \<Rightarrow> string \<Rightarrow> int \<Rightarrow> COMPool \<Rightarrow>
   ((any \<times> error option) outcome \<times> COMPool) option" where
  "exec_fn be sched command params conn p =
     (case conn_ExecuteCommand be sched command params (heap p conn) of
        None \<Rightarrow> None
      | Some (Panicked pn, c') \<Rightarrow> Some (Panicked pn, p\<lparr>heap := (heap p)(conn := c')\<rparr>)
      | Some (Returned (str, err), c') \<Rightarrow>
          Some (Returned (AnyString str, err), p\<lparr>heap := (heap p)(conn := c')\<rparr>))"

text \<open>\<open>COMPool.ExecuteCommand\<close>. A byte slice is \<open>None\<close> when \<open>nil\<close> and \<open>Some bs\<close>
  otherwise, so \<open>[]byte{}\<close> is \<open>Some []\<close>; a string is its bytes.\<close>

definition ExecuteCommand ::
  "backend \<Rightarrow> wevent list \<Rightarrow> select_case list \<Rightarrow> int \<Rightarrow> string \<Rightarrow> string \<Rightarrow> COMPool \<Rightarrow>
   ((string option \<times> error option) outcome \<times> COMPool) option" where
  "ExecuteCommand be sched evs now command params p =
     (case Execute (exec_fn be sched command params) evs now p of
        None \<Rightarrow> None
      | Some (Panicked pn, p') \<Rightarrow> Some (Panicked pn, p')
      | Some (Returned (result, Some err), p') \<Rightarrow> Some (Returned (Some [], Some err), p')
      | Some (Returned (result, None), p') \<Rightarrow>
          (case result of
             AnyString str \<Rightarrow> Some (Returned (Some str, None), p')
           | _ \<Rightarrow> Some (Returned (Some [], Some NotAString), p')))"

section \<open>The pool under concurrent callers\<close>

text \<open>
  Goroutines are numbered. Each one is either outside the pool (\<open>Idle\<close>) or at a place
  inside one of its operations; the place records the local variables that matter:
  \<^item> \<open>GetReceived conn\<close>: \<open>GetConnection\<close> has received \<open>conn\<close> from the free channel and
    has not marked it yet;
  \<^item> \<open>GetTimedOut\<close>: the timer case of \<open>GetConnection\<close> was taken;
  \<^item> \<open>CreateWantCreateMutex\<close>, \<open>CreateWantPoolMutex\<close>, \<open>CreateLocked\<close>: in
    \<open>createConnection\<close>, before each \<open>Lock\<close> and before the size check;
  \<^item> \<open>CreateWaitReady conn\<close>: \<open>createConnection\<close> waits for the worker of the new \<open>conn\<close>;
  \<^item> \<open>Holding conn\<close>: \<open>GetConnection\<close> has returned \<open>conn\<close> and \<open>Execute\<close> runs \<open>fn\<close>;
  \<^item> \<open>ReleaseCleared conn\<close>: \<open>ReleaseConnection\<close> has cleared the busy flag and is about
    to send;
  \<^item> \<open>CleanupLocked\<close>, \<open>CleanupScan now i n\<close>, \<open>CleanupSelect now i n conn\<close>,
    \<open>CleanupGot now i n conn c\<close>: in \<open>cleanup\<close>, holding the pool lock: before the first
    check, at the head of round \<open>i\<close> of the \<open>n\<close> rounds of the \<open>range\<close> loop, before
    the \<open>select\<close> for the idle \<open>conn\<close>, and after it received \<open>c\<close>;
  \<^item> \<open>CloseWantLock\<close>, \<open>CloseScan i n\<close>: in \<open>Close\<close>, inside the \<open>sync.Once\<close>, the
    shutdown channel closed: before \<open>CloseConnections\<close> locks, and at the head of round
    \<open>i\<close> of its loop.
\<close>

datatype tstate =
    Idle
  | GetReceived int
  | GetTimedOut
  | CreateWantCreateMutex
  | CreateWantPoolMutex
  | CreateLocked
  | CreateWaitReady int
  | Holding int
  | ReleaseCleared int
  | CleanupLocked
  | CleanupScan int nat nat
  | CleanupSelect int nat nat int
  | CleanupGot int nat nat int int
  | CloseWantLock
  | CloseScan nat nat

text \<open>The whole system: the pool, who holds \<open>poolMutex\<close> (as a writer) and \<open>createMutex\<close>,
  whether some goroutine is inside the body of \<open>closeOnce.Do\<close>, and the place of every
  goroutine.\<close>

record sys =
  pool :: COMPool
  poolMutex :: "nat option"
  createMutex :: "nat option"
  onceBusy :: bool
  threads :: "nat \<Rightarrow> tstate"

text \<open>
  One step of one goroutine. The steps follow the statements of the source that read or
  write what other goroutines can see; \<open>closeConnection\<close> is taken as one step, and so is
  the tail of \<open>createConnection\<close> from the answer of the worker to the unlocks.
  The command that the holder of a connection runs on it touches the command queue of
  that connection only, which no pool operation reads, so it has no step here.
  \<^item> \<open>GetRecv\<close>, \<open>GetShutdown\<close>, \<open>GetTimeout\<close>: the three cases of the \<open>select\<close> of
    \<open>GetConnection\<close>; \<open>GetMark now\<close>: the marking under the connection's lock;
    \<open>GetCanCreate\<close>: the read of \<open>activeCount\<close> under \<open>RLock\<close>, leading to
    \<open>createConnection\<close> or to the timeout error.
  \<^item> \<open>CallCreate\<close>: a call of \<open>createConnection\<close> from \<open>InitConnections\<close>;
    \<open>LockCreate\<close>, \<open>LockPool\<close>: its two \<open>Lock\<close>s; \<open>CreateCheck now\<close>: the size check,
    and past it the new object and \<open>nextID++\<close>; \<open>CreateReady r\<close>: the worker's answer
    \<open>r\<close>, and on \<open>nil\<close> the append, the count, the send with \<open>default\<close>; both unlock.
    After it the caller is outside again: \<open>GetConnection\<close> starts over, \<open>InitConnections\<close>
    goes on.
  \<^item> \<open>RelClear now\<close>, \<open>RelSend\<close>: the two halves of \<open>ReleaseConnection\<close>.
  \<^item> \<open>CleanupLock\<close>, \<open>CleanupCheck now\<close>, \<open>CleanupInspect\<close>, \<open>CleanupTake\<close>,
    \<open>CleanupDecide\<close>: \<open>cleanup\<close>: the lock, the first check, the head of a round with the
    look at the connection's flags, the \<open>select\<close> with \<open>default\<close>, and the closing or
    the sending back (which waits for room).
  \<^item> \<open>CloseCall\<close>, \<open>CloseLock\<close>, \<open>CloseIter\<close>: \<open>Close\<close>: entering the \<open>sync.Once\<close>
    and closing the shutdown channel (a later call returns at once, a call during the
    first waits), the lock of \<open>CloseConnections\<close>, a round of its loop or its end.
  A goroutine that panics unlocks what its deferred calls unlock and is taken to be
  outside the pool afterwards. \<open>None\<close>: the step cannot run in this state.
\<close>

datatype action =
    GetRecv | GetMark int | GetShutdown | GetTimeout | GetCanCreate
  | CallCreate | LockCreate | LockPool | CreateCheck int | CreateReady "error option"
  | RelClear int | RelSend
  | CleanupLock | CleanupCheck int | CleanupInspect | CleanupTake | CleanupDecide
  | CloseCall | CloseLock | CloseIter

definition goto :: "nat \<Rightarrow> tstate \<Rightarrow> sys \<Rightarrow> sys" where
  "goto t pc s = s\<lparr>threads := (threads s)(t := pc)\<rparr>"

definition unlock_pool :: "sys \<Rightarrow> sys" where
  "unlock_pool s = s\<lparr>poolMutex := None\<rparr>"

definition unlock_both :: "sys \<Rightarrow> sys" where
  "unlock_both s = s\<lparr>poolMutex := None, createMutex := None\<rparr>"

fun pstep :: "nat \<Rightarrow> action \<Rightarrow> sys \<Rightarrow> sys option" where
  "pstep t GetRecv s =
     (case (threads s t, freeConn (pool s)) of
        (Idle, conn # rest) \<Rightarrow>
          Some (goto t (GetReceived conn) (s\<lparr>pool := (pool s)\<lparr>freeConn := rest\<rparr>\<rparr>))
      | _ \<Rightarrow> None)"
| "pstep t (GetMark now) s =
     (case threads s t of
        GetReceived conn \<Rightarrow> Some (goto t (Holding conn) (s\<lparr>pool := mark_busy now conn (pool s)\<rparr>))
      | _ \<Rightarrow> None)"
| "pstep t GetShutdown s =
     (case threads s t of
        Idle \<Rightarrow> if shutdown (pool s) then Some s else None
      | _ \<Rightarrow> None)"
| "pstep t GetTimeout s =
     (case threads s t of
        Idle \<Rightarrow> if freeConn (pool s) = [] \<and> \<not> shutdown (pool s)
                then Some (goto t GetTimedOut s) else None
      | _ \<Rightarrow> None)"
| "pstep t GetCanCreate s =
     (case threads s t of
        GetTimedOut \<Rightarrow>
          if poolMutex s \<noteq> None then None
          else if activeCount (pool s) < MaxPoolSize (cfg (pool s))
          then Some (goto t CreateWantCreateMutex s)
          else Some (goto t Idle s)
      | _ \<Rightarrow> None)"
| "pstep t CallCreate s =
     (case threads s t of
        Idle \<Rightarrow> Some (goto t CreateWantCreateMutex s)
      | _ \<Rightarrow> None)"
| "pstep t LockCreate s =
     (case threads s t of
        CreateWantCreateMutex \<Rightarrow>
          if createMutex s = None
          then Some (goto t CreateWantPoolMutex (s\<lparr>createMutex := Some t\<rparr>)) else None
      | _ \<Rightarrow> None)"
| "pstep t LockPool s =
     (case threads s t of
        CreateWantPoolMutex \<Rightarrow>
          if poolMutex s = None
          then Some (goto t CreateLocked (s\<lparr>poolMutex := Some t\<rparr>)) else None
      | _ \<Rightarrow> None)"
| "pstep t (CreateCheck now) s =
     (case threads s t of
        CreateLocked \<Rightarrow>
          if activeCount (pool s) \<ge> MaxPoolSize (cfg (pool s))
          then Some (goto t Idle (unlock_both s))
          else
            let p = pool s; c = nextID p
            in Some (goto t (CreateWaitReady c)
                       (s\<lparr>pool := p\<lparr>heap := (heap p)(c := new_conn c now None),
                                     nextID := nextID p + 1\<rparr>\<rparr>))
      | _ \<Rightarrow> None)"
| "pstep t (CreateReady r) s =
     (case threads s t of
        CreateWaitReady c \<Rightarrow>
          (case r of
             Some err \<Rightarrow>
               let p = pool s
               in Some (goto t Idle
                          (unlock_both (s\<lparr>pool := p\<lparr>heap := (heap p)(c := (heap p c)\<lparr>worker := Exited\<rparr>)\<rparr>\<rparr>)))
           | None \<Rightarrow>
               let p1 = pool s;
                   cs = connections p1 @ [c];
                   p2 = p1\<lparr>connections := cs, backing := cs @ drop (length cs) (backing p1),
                           activeCount := activeCount p1 + 1\<rparr>;
                   p3 = (if length (freeConn p2) < freeConn_cap p2
                         then p2\<lparr>freeConn := freeConn p2 @ [c]\<rparr> else p2)
               in Some (goto t Idle (unlock_both (s\<lparr>pool := p3\<rparr>))))
      | _ \<Rightarrow> None)"
| "pstep t (RelClear now) s =
     (case threads s t of
        Holding conn \<Rightarrow>
          Some (goto t (ReleaseCleared conn) (s\<lparr>pool := clear_busy now conn (pool s)\<rparr>))
      | _ \<Rightarrow> None)"
| "pstep t RelSend s =
     (case threads s t of
        ReleaseCleared conn \<Rightarrow>
          if length (freeConn (pool s)) < freeConn_cap (pool s)
          then Some (goto t Idle (s\<lparr>pool := (pool s)\<lparr>freeConn := freeConn (pool s) @ [conn]\<rparr>\<rparr>))
          else Some (goto t Idle (s\<lparr>pool := snd (closeConnection conn (pool s))\<rparr>))
      | _ \<Rightarrow> None)"
| "pstep t CleanupLock s =
     (case threads s t of
        Idle \<Rightarrow> if poolMutex s = None
                then Some (goto t CleanupLocked (s\<lparr>poolMutex := Some t\<rparr>)) else None
      | _ \<Rightarrow> None)"
| "pstep t (CleanupCheck now) s =
     (case threads s t of
        CleanupLocked \<Rightarrow>
          if activeCount (pool s) \<le> MinPoolSize (cfg (pool s))
          then Some (goto t Idle (unlock_pool s))
          else Some (goto t (CleanupScan now 0 (length (connections (pool s)))) s)
      | _ \<Rightarrow> None)"
| "pstep t CleanupInspect s =
     (case threads s t of
        CleanupScan now i n \<Rightarrow>
          if i \<ge> n \<or> activeCount (pool s) \<le> MinPoolSize (cfg (pool s))
          then Some (goto t Idle (unlock_pool s))
          else
            let p = pool s; conn = backing p ! i;
                idle = (\<not> busy (heap p conn) \<and> now - lastUsed (heap p conn) > IdleTimeout (cfg p))
            in if idle then Some (goto t (CleanupSelect now i n conn) s)
               else Some (goto t (CleanupScan now (Suc i) n) s)
      | _ \<Rightarrow> None)"
| "pstep t CleanupTake s =
     (case threads s t of
        CleanupSelect now i n conn \<Rightarrow>
          (case freeConn (pool s) of
             [] \<Rightarrow> Some (goto t (CleanupScan now (Suc i) n) s)
           | c # rest \<Rightarrow>
               Some (goto t (CleanupGot now i n conn c) (s\<lparr>pool := (pool s)\<lparr>freeConn := rest\<rparr>\<rparr>)))
      | _ \<Rightarrow> None)"
| "pstep t CleanupDecide s =
     (case threads s t of
        CleanupGot now i n conn c \<Rightarrow>
          if conn_id (heap (pool s) c) = conn_id (heap (pool s) conn) then
            (case closeConnection conn (pool s) of
               (Some pn, p') \<Rightarrow> Some (goto t Idle (unlock_pool (s\<lparr>pool := p'\<rparr>)))
             | (None, p') \<Rightarrow> Some (goto t (CleanupScan now (Suc i) n) (s\<lparr>pool := p'\<rparr>)))
          else if length (freeConn (pool s)) < freeConn_cap (pool s)
          then Some (goto t (CleanupScan now (Suc i) n)
                       (s\<lparr>pool := (pool s)\<lparr>freeConn := freeConn (pool s) @ [c]\<rparr>\<rparr>))
          else None
      | _ \<Rightarrow> None)"
| "pstep t CloseCall s =
     (case threads s t of
        Idle \<Rightarrow>
          if closeOnce (pool s) then Some s
          else if onceBusy s then None
          else Some (goto t CloseWantLock (s\<lparr>pool := (pool s)\<lparr>shutdown := True\<rparr>, onceBusy := True\<rparr>))
      | _ \<Rightarrow> None)"
| "pstep t CloseLock s =
     (case threads s t of
        CloseWantLock \<Rightarrow>
          if poolMutex s = None
          then Some (goto t (CloseScan 0 (length (connections (pool s)))) (s\<lparr>poolMutex := Some t\<rparr>))
          else None
      | _ \<Rightarrow> None)"
| "pstep t CloseIter s =
     (case threads s t of
        CloseScan i n \<Rightarrow>
          if i < n then
            (case closeConnection (backing (pool s) ! i) (pool s) of
               (Some pn, p') \<Rightarrow>
                 Some (goto t Idle (unlock_pool (s\<lparr>pool := p'\<lparr>closeOnce := True\<rparr>, onceBusy := False\<rparr>)))
             | (None, p') \<Rightarrow> Some (goto t (CloseScan (Suc i) n) (s\<lparr>pool := p'\<rparr>)))
          else
            Some (goto t Idle
                    (unlock_pool (s\<lparr>pool := (pool s)\<lparr>connections := [], backing := [],
                                                     activeCount := 0, closeOnce := True\<rparr>,
                                    onceBusy := False\<rparr>)))
      | _ \<Rightarrow> None)"

fun prun :: "(nat \<times> action) list \<Rightarrow> sys \<Rightarrow> sys option" where
  "prun [] s = Some s"
| "prun ((t, a) # tr) s = (case pstep t a s of None \<Rightarrow> None | Some s' \<Rightarrow> prun tr s')"

text \<open>The system that \<open>NewCOMPool\<close> starts from: the pool object built from the normalised
  configuration, nobody inside. The creations of \<open>InitConnections\<close> are steps like any
  other.\<close>

definition sys_init :: "Config \<Rightarrow> sys" where
  "sys_init c =
     \<lparr>pool = new_pool (SetDefaults c), poolMutex = None, createMutex = None,
      onceBusy = False, threads = (\<lambda>t. Idle)\<rparr>"

text \<open>The places at which a goroutine holds \<open>poolMutex\<close> as a writer, and the connection a
  goroutine has in hand: taken out of the free channel, or returned by \<open>GetConnection\<close>
  and not sent back yet, or just created and not published yet.\<close>

fun holds_pool :: "tstate \<Rightarrow> bool" where
  "holds_pool CreateLocked = True"
| "holds_pool (CreateWaitReady c) = True"
| "holds_pool CleanupLocked = True"
| "holds_pool (CleanupScan now i n) = True"
| "holds_pool (CleanupSelect now i n conn) = True"
| "holds_pool (CleanupGot now i n conn c) = True"
| "holds_pool (CloseScan i n) = True"
| "holds_pool pc = False"

fun in_hand :: "tstate \<Rightarrow> int option" where
  "in_hand (GetReceived c) = Some c"
| "in_hand (CreateWaitReady c) = Some c"
| "in_hand (Holding c) = Some c"
| "in_hand (ReleaseCleared c) = Some c"
| "in_hand (CleanupGot now i n conn c) = Some c"
| "in_hand pc = None"

text \<open>What holds in every state the system reaches, about the count: the lock is held by
  whoever is at a place under it, and past the size check of \<open>createConnection\<close> the count
  is still below the maximum.\<close>

definition count_inv :: "sys \<Rightarrow> bool" where
  "count_inv s \<longleftrightarrow>
     0 \<le> MaxPoolSize (cfg (pool s)) \<and>
     activeCount (pool s) \<le> MaxPoolSize (cfg (pool s)) \<and>
     (\<forall>t. holds_pool (threads s t) \<longrightarrow> poolMutex s = Some t) \<and>
     (\<forall>t c. threads s t = CreateWaitReady c \<longrightarrow>
        activeCount (pool s) < MaxPoolSize (cfg (pool s)))"

text \<open>What holds in every state the system reaches, about ownership: a connection is in
  the free channel at most once, or in the hand of at most one goroutine, never both;
  every such connection was created (its address is below \<open>nextID\<close>); and a busy
  connection is held by a caller.\<close>

definition owner_inv :: "sys \<Rightarrow> bool" where
  "owner_inv s \<longleftrightarrow>
     distinct (freeConn (pool s)) \<and>
     (\<forall>x \<in> set (freeConn (pool s)). x < nextID (pool s)) \<and>
     (\<forall>t x. in_hand (threads s t) = Some x \<longrightarrow>
        x < nextID (pool s) \<and> x \<notin> set (freeConn (pool s))) \<and>
     (\<forall>t t' x. in_hand (threads s t) = Some x \<and> in_hand (threads s t') = Some x \<longrightarrow> t = t') \<and>
     (\<forall>x. busy (heap (pool s) x) \<longrightarrow> (\<exists>t. threads s t = Holding x))"

text \<open>The same, told from the point of view of one goroutine \<open>t\<close>: what the others have
  in hand, what the others hold, and the conditions on \<open>t\<close> itself.\<close>

definition others_hands :: "(nat \<Rightarrow> tstate) \<Rightarrow> nat \<Rightarrow> int set" where
  "others_hands th t = {x. \<exists>u. u \<noteq> t \<and> in_hand (th u) = Some x}"

definition others_holding :: "(nat \<Rightarrow> tstate) \<Rightarrow> nat \<Rightarrow> int set" where
  "others_holding th t = {x. \<exists>u. u \<noteq> t \<and> th u = Holding x}"

definition others_unique :: "(nat \<Rightarrow> tstate) \<Rightarrow> nat \<Rightarrow> bool" where
  "others_unique th t \<longleftrightarrow>
     (\<forall>u u' x. u \<noteq> t \<and> u' \<noteq> t \<and> in_hand (th u) = Some x \<and> in_hand (th u') = Some x
        \<longrightarrow> u = u')"

definition owner_inv_at :: "nat \<Rightarrow> sys \<Rightarrow> bool" where
  "owner_inv_at t s \<longleftrightarrow>
     distinct (freeConn (pool s)) \<and>
     (\<forall>x \<in> set (freeConn (pool s)). x < nextID (pool s)) \<and>
     (\<forall>x \<in> others_hands (threads s) t. x < nextID (pool s) \<and> x \<notin> set (freeConn (pool s))) \<and>
     others_unique (threads s) t \<and>
     (\<forall>x. in_hand (threads s t) = Some x \<longrightarrow>
        x < nextID (pool s) \<and> x \<notin> set (freeConn (pool s)) \<and> x \<notin> others_hands (threads s) t) \<and>
     (\<forall>x. busy (heap (pool s) x) \<longrightarrow>
        threads s t = Holding x \<or> x \<in> others_holding (threads s) t)"

section \<open>Concrete configurations and runs\<close>

text \<open>The scenario configuration of the specification: idle timeout 10 ms, sweep
  interval 5 ms, wait timeout 50 ms, minimum 0, maximum 3.\<close>

definition scenario_cfg :: Config where
  "scenario_cfg =
     \<lparr>ConnectionString = ''File=base'', CommandExec = ''WebAPI'', MaxPoolSize = 3,
      MinPoolSize = 0, IdleTimeout = 10000000, COMObjectID = ''V83.COMConnector'',
      WaitConnTimeout = 50000000, CleanupIdleConn = 5000000,
      ConnCloseTimeout = 1000000000\<rparr>"

text \<open>A backend whose workers all initialise, one whose fourth worker (id 3) fails, and
  a clock that reads 0 at every creation.\<close>

definition all_ready :: "int \<Rightarrow> error option" where
  "all_ready k = None"

definition fourth_fails :: "int \<Rightarrow> error option" where
  "fourth_fails k = (if k = 3 then Some (BackendError ''1C Connect failed'') else None)"

definition clock0 :: "int \<Rightarrow> int" where
  "clock0 k = 0"

text \<open>An acquisition at time 0 by a single caller: from the free channel when it holds a
  connection, and otherwise after the timer, through a new connection whose worker
  initialises. The scenario "create three resources, release all": a pool built from
  the configuration, three acquisitions with nothing released in between, then the three
  releases in the order of acquisition, all at time 0.\<close>

definition acquire :: "COMPool \<Rightarrow> int \<times> COMPool" where
  "acquire p =
     (case GetConnection (if freeConn p = [] then [TimerFired 0 None, FreeConnReady 0]
                          else [FreeConnReady 0]) p of
        Some (Inr conn, p') \<Rightarrow> (conn, p')
      | _ \<Rightarrow> (- 1, p))"

definition three_idle :: "Config \<Rightarrow> COMPool" where
  "three_idle c =
     (let p0 = snd (NewCOMPool all_ready clock0 c);
          (a, p1) = acquire p0;
          (b, p2) = acquire p1;
          (d, p3) = acquire p2;
          p4 = snd (ReleaseConnection 0 a p3);
          p5 = snd (ReleaseConnection 0 b p4)
      in snd (ReleaseConnection 0 d p5))"

text \<open>The time of a reaper tick 20 ms later.\<close>

definition tick_time :: int where
  "tick_time = 20000000"

text \<open>The scenario with a configured minimum of 1, before and after one tick.\<close>

definition idle_min1 :: COMPool where
  "idle_min1 = three_idle (scenario_cfg\<lparr>MinPoolSize := 1\<rparr>)"

definition idle_min1_swept :: COMPool where
  "idle_min1_swept = snd (cleanup tick_time idle_min1)"

text \<open>The scenario with the configured minimum of 0, after one tick and after two.\<close>

definition idle_min0 :: COMPool where
  "idle_min0 = three_idle scenario_cfg"

definition idle_min0_swept :: COMPool where
  "idle_min0_swept = snd (cleanup tick_time idle_min0)"

definition idle_min0_swept_twice :: COMPool where
  "idle_min0_swept_twice = snd (cleanup tick_time idle_min0_swept)"

text \<open>A pool of three connections, built with minimum and maximum 3, and the
  configuration with minimum and maximum 4.\<close>

definition pool_three :: COMPool where
  "pool_three = snd (NewCOMPool all_ready clock0 (scenario_cfg\<lparr>MinPoolSize := 3\<rparr>))"

definition cfg_four :: Config where
  "cfg_four = scenario_cfg\<lparr>MaxPoolSize := 4, MinPoolSize := 4\<rparr>"

text \<open>Two callers race to grow a pool of maximum 1: both time out on the empty free
  channel and both read a count below the maximum; goroutine 1 then creates connection
  0, and goroutine 2, entering \<open>createConnection\<close> after it, is refused by the check under
  the locks.\<close>

definition cfg_one :: Config where
  "cfg_one = scenario_cfg\<lparr>MaxPoolSize := 1\<rparr>"

definition race_trace :: "(nat \<times> action) list" where
  "race_trace =
     [(1, GetTimeout), (2, GetTimeout), (1, GetCanCreate), (2, GetCanCreate),
      (1, LockCreate), (1, LockPool), (1, CreateCheck 0), (1, CreateReady None),
      (2, LockCreate), (2, LockPool), (2, CreateCheck 0)]"

text \<open>After the race, goroutine 1 acquires the connection; later it releases it.\<close>

definition held_trace :: "(nat \<times> action) list" where
  "held_trace = race_trace @ [(1, GetRecv), (1, GetMark 5)]"

definition released_trace :: "(nat \<times> action) list" where
  "released_trace = held_trace @ [(1, RelClear 9), (1, RelSend)]"

text \<open>A pool of one connection (minimum 1), a backend that fails every command, and one
  that answers every command with its parameters.\<close>

definition pool_one :: COMPool where
  "pool_one = snd (NewCOMPool all_ready clock0 (scenario_cfg\<lparr>MinPoolSize := 1\<rparr>))"

definition failing_backend :: backend where
  "failing_backend name params ch = Inl (BackendError ''method failed'')"

definition echo_backend :: backend where
  "echo_backend name params ch = Inr (VString params)"

text \<open>Three calls of \<open>ExecuteCommand\<close>: on the pool of one connection with the failing
  backend and with the echoing one, the worker serving the command; and on that pool
  after \<open>Close\<close>, the \<open>select\<close> of \<open>GetConnection\<close> taking the shutdown case.\<close>

definition failed_call :: "((string option \<times> error option) outcome \<times> COMPool) option" where
  "failed_call =
     ExecuteCommand failing_backend [Pull, Finish] [FreeConnReady 5] 9 ''TestMethod'' ''ping''
       pool_one"

definition echo_call :: "((string option \<times> error option) outcome \<times> COMPool) option" where
  "echo_call =
     ExecuteCommand echo_backend [Pull, Finish] [FreeConnReady 5] 9 ''TestMethod'' ''ping''
       pool_one"

definition shutdown_call :: "((string option \<times> error option) outcome \<times> COMPool) option" where
  "shutdown_call =
     ExecuteCommand echo_backend [Pull, Finish] [ShutdownClosed] 9 ''TestMethod'' ''ping''
       (snd (Close pool_one))"

text \<open>Pools for the cases of \<open>GetConnection\<close>: the pool of the scenario configuration
  right after construction (minimum 0: no connection yet); a pool of maximum 1 whose only
  connection is held by a caller; and the pool of one connection after \<open>Close\<close>.\<close>

definition empty_pool :: COMPool where
  "empty_pool = snd (NewCOMPool all_ready clock0 scenario_cfg)"

definition busy_pool :: COMPool where
  "busy_pool = snd (acquire (snd (NewCOMPool all_ready clock0 (cfg_one\<lparr>MinPoolSize := 1\<rparr>))))"

definition closed_pool :: COMPool where
  "closed_pool = snd (Close pool_one)"

definition connect_failed :: error where
  "connect_failed = BackendError ''1C Connect failed''"

section \<open>The idle reaper keeps the minimum\<close>

lemma closeConnection_count:
  "closeConnection conn p = (r, p') \<Longrightarrow>
     cfg p' = cfg p \<and> activeCount p - 1 \<le> activeCount p' \<and> activeCount p' \<le> activeCount p"
  by (auto simp: closeConnection_def remove_at_def Let_def split: if_splits option.splits)

lemma cleanup_range_count:
  "cleanup_range now is p = (r, p') \<Longrightarrow>
     cfg p' = cfg p \<and> activeCount p' \<le> activeCount p \<and>
     min (activeCount p) (MinPoolSize (cfg p)) \<le> activeCount p'"
proof (induction "is" arbitrary: p)
  case Nil
  then show ?case by simp
next
  case (Cons i "is")
  show ?case
  proof (cases "activeCount p \<le> MinPoolSize (cfg p)")
    case True
    with Cons.prems show ?thesis by simp
  next
    case False
    let ?conn = "backing p ! i"
    let ?idle = "\<not> busy (heap p ?conn) \<and> now - lastUsed (heap p ?conn) > IdleTimeout (cfg p)"
    show ?thesis
    proof (cases ?idle)
      case nidle: False
      with False Cons.prems have "cleanup_range now is p = (r, p')" by (simp add: Let_def)
      from Cons.IH[OF this] show ?thesis .
    next
      case idle: True
      show ?thesis
      proof (cases "freeConn p")
        case Nil
        with idle False Cons.prems have "cleanup_range now is p = (r, p')" by (simp add: Let_def)
        from Cons.IH[OF this] show ?thesis .
      next
        case (Cons c rest)
        show ?thesis
        proof (cases "conn_id (heap p c) = conn_id (heap p ?conn)")
          case ne: False
          with Cons idle False Cons.prems
          have "cleanup_range now is (p\<lparr>freeConn := rest @ [c]\<rparr>) = (r, p')"
            by (simp add: Let_def)
          from Cons.IH[OF this] show ?thesis by simp
        next
          case eq: True
          obtain r1 p1 where cc: "closeConnection ?conn (p\<lparr>freeConn := rest\<rparr>) = (r1, p1)"
            by (cases "closeConnection ?conn (p\<lparr>freeConn := rest\<rparr>)")
          from closeConnection_count[OF cc]
          have c1: "cfg p1 = cfg p" "activeCount p - 1 \<le> activeCount p1"
            "activeCount p1 \<le> activeCount p"
            by simp_all
          show ?thesis
          proof (cases r1)
            case None
            with cc eq Cons idle False Cons.prems
            have "cleanup_range now is p1 = (r, p')" by (simp add: Let_def)
            from Cons.IH[OF this] c1 False show ?thesis by auto
          next
            case (Some pn)
            with cc eq Cons idle False Cons.prems
            have "p' = p1" by (simp add: Let_def)
            with c1 False show ?thesis by auto
          qed
        qed
      qed
    qed
  qed
qed

lemma cleanup_range_stops:
  "activeCount p \<le> MinPoolSize (cfg p) \<Longrightarrow> cleanup_range now is p = (None, p)"
  by (cases "is") simp_all

text \<open>
  Claim C6. A tick of the idle reaper never takes \<open>activeCount\<close> below \<open>MinPoolSize\<close>:
  when the count is at or below the minimum at the start of the tick, \<open>cleanup\<close> changes
  nothing; during the scan, a round that finds the count at the minimum ends the scan,
  whatever is left to inspect; and the count after any tick is at least the smaller of
  the count before and the minimum, so a count that was at or above the minimum stays
  there. The tick closes connections only (the count never grows) and leaves the
  configuration alone.
\<close>

theorem cleanup_never_below_minimum:
  "(activeCount p \<le> MinPoolSize (cfg p) \<longrightarrow> cleanup now p = (None, p)) \<and>
   (activeCount p \<le> MinPoolSize (cfg p) \<longrightarrow> cleanup_range now is p = (None, p)) \<and>
   (MinPoolSize (cfg p) \<le> activeCount p \<longrightarrow>
      MinPoolSize (cfg p) \<le> activeCount (snd (cleanup now p))) \<and>
   min (activeCount p) (MinPoolSize (cfg p)) \<le> activeCount (snd (cleanup now p)) \<and>
   activeCount (snd (cleanup now p)) \<le> activeCount p \<and>
   cfg (snd (cleanup now p)) = cfg p"
proof -
  obtain r p' where c: "cleanup now p = (r, p')" by (cases "cleanup now p")
  have "cfg p' = cfg p \<and> activeCount p' \<le> activeCount p \<and>
        min (activeCount p) (MinPoolSize (cfg p)) \<le> activeCount p'"
  proof (cases "activeCount p \<le> MinPoolSize (cfg p)")
    case True
    with c show ?thesis by (simp add: cleanup_def)
  next
    case False
    with c have "cleanup_range now [0..<length (connections p)] p = (r, p')"
      by (simp add: cleanup_def)
    from cleanup_range_count[OF this] show ?thesis .
  qed
  with c show ?thesis by (auto simp: cleanup_def cleanup_range_stops)
qed

theorem cleanup_never_below_minimum_witness:
  "MinPoolSize (cfg idle_min1) \<le> activeCount idle_min1 \<and>
   MinPoolSize (cfg idle_min1) \<le> activeCount idle_min1_swept \<and>
   activeCount idle_min1_swept = 1 \<and>
   activeCount idle_min1_swept \<le> MinPoolSize (cfg idle_min1_swept) \<and>
   cleanup tick_time idle_min1_swept = (None, idle_min1_swept) \<and>
   cleanup_range tick_time [0] idle_min1_swept = (None, idle_min1_swept)"
proof -
  have a: "MinPoolSize (cfg idle_min1) \<le> activeCount idle_min1"
    by code_simp
  have b: "activeCount idle_min1_swept = 1" "MinPoolSize (cfg idle_min1_swept) = 1"
    by code_simp+
  from cleanup_never_below_minimum[of idle_min1 tick_time "[0]"] a
  have c: "MinPoolSize (cfg idle_min1) \<le> activeCount idle_min1_swept"
    by (simp add: idle_min1_swept_def)
  from cleanup_never_below_minimum[of idle_min1_swept tick_time "[0]"] b
  have d: "cleanup tick_time idle_min1_swept = (None, idle_min1_swept)"
    "cleanup_range tick_time [0] idle_min1_swept = (None, idle_min1_swept)"
    by simp_all
  from a b c d show ?thesis by simp
qed

section \<open>Close, construction and the scenario of the reaper\<close>

text \<open>
  Claim C7, at a pool of three connections. \<open>Close\<close> on a pool built with minimum and
  maximum 3 does not return: the loop of \<open>CloseConnections\<close> ranges over the slice that
  \<open>closeConnection\<close> shortens in place, so its rounds read connection 0, then 2, then 2
  again, and the second \<open>close\<close> of the quit channel of connection 2 panics. The call
  leaves connection 1 in the list, counted, its quit channel open and its worker in the
  loop; the list is not cleared and the count is not 0. The shutdown channel is closed and
  the \<open>sync.Once\<close> is used up, so a second \<open>Close\<close> returns \<open>nil\<close> and tears nothing down.
\<close>

theorem Close_three_connections_panics:
  "fst (NewCOMPool all_ready clock0 (scenario_cfg\<lparr>MinPoolSize := 3\<rparr>)) = Returned None \<and>
   connections pool_three = [0, 1, 2] \<and>
   activeCount pool_three = 3 \<and>
   fst (Close pool_three) = Panicked CloseOfClosedChannel \<and>
   connections (snd (Close pool_three)) = [1] \<and>
   activeCount (snd (Close pool_three)) = 1 \<and>
   \<not> quit (heap (snd (Close pool_three)) 1) \<and>
   worker (heap (snd (Close pool_three)) 1) = AtSelect \<and>
   shutdown (snd (Close pool_three)) \<and>
   fst (Close (snd (Close pool_three))) = Returned None \<and>
   connections (snd (Close (snd (Close pool_three)))) = [1]"
  by code_simp

text \<open>
  Claim C8, at a configuration with minimum and maximum 4 and a backend whose fourth
  worker fails to initialise. \<open>NewCOMPool\<close> has created three connections when the fourth
  creation fails; the \<open>Close\<close> it then calls panics as above, so the constructor returns
  neither a pool nor an error, and connection 1 is left with its quit channel open and
  its worker running.
\<close>

theorem NewCOMPool_fourth_failure_panics:
  "fst (InitConnections fourth_fails clock0 (new_pool (SetDefaults cfg_four))) =
     Some (InitConnFailed 3 (BackendError ''1C Connect failed'')) \<and>
   connections (snd (InitConnections fourth_fails clock0 (new_pool (SetDefaults cfg_four)))) =
     [0, 1, 2] \<and>
   fst (NewCOMPool fourth_fails clock0 cfg_four) = Panicked CloseOfClosedChannel \<and>
   connections (snd (NewCOMPool fourth_fails clock0 cfg_four)) = [1] \<and>
   activeCount (snd (NewCOMPool fourth_fails clock0 cfg_four)) = 1 \<and>
   \<not> quit (heap (snd (NewCOMPool fourth_fails clock0 cfg_four)) 1) \<and>
   worker (heap (snd (NewCOMPool fourth_fails clock0 cfg_four)) 1) = AtSelect"
  by code_simp

text \<open>
  Claim C9 as stated fails: \<open>SetDefaults\<close> leaves a configured minimum of 0 at 0, and in
  the scenario (three idle connections, free channel in creation order) the second tick
  of the reaper removes the connection the first tick left.
\<close>

theorem minimum_zero_not_clamped:
  "MinPoolSize (SetDefaults scenario_cfg) = 0 \<and>
   MinPoolSize (SetDefaults scenario_cfg) \<noteq> 1 \<and>
   activeCount idle_min0 = 3 \<and>
   activeCount idle_min0_swept_twice = 0"
  by code_simp

text \<open>
  Claim C9, amended. Normalisation replaces a negative minimum by 1 and leaves a
  minimum of 0 as it is, whatever the rest of the configuration. So in the scenario
  (minimum 0, maximum 3, three connections that have all been idle for longer than
  \<open>IdleTimeout\<close>, queued in the free channel in the order of their creation) the floor of
  the reaper is 0: its ticks remove all three connections and none remains. With a
  configured minimum of 1 the reaper removes exactly two of the three, one remains, and
  further ticks change nothing.
\<close>

theorem minimum_zero_kept_and_reaped:
  "MinPoolSize (SetDefaults (c\<lparr>MinPoolSize := 0\<rparr>)) = 0 \<and>
   MinPoolSize (cfg idle_min0) = 0 \<and> MaxPoolSize (cfg idle_min0) = 3 \<and>
   connections idle_min0 = [0, 1, 2] \<and> freeConn idle_min0 = [0, 1, 2] \<and>
   activeCount idle_min0 = 3 \<and>
   activeCount idle_min0_swept_twice = 0 \<and> connections idle_min0_swept_twice = [] \<and>
   MinPoolSize (cfg idle_min1) = 1 \<and> activeCount idle_min1 = 3 \<and>
   activeCount idle_min1_swept = 1 \<and> length (connections idle_min1_swept) = 1 \<and>
   fst (cleanup tick_time idle_min1_swept) = None \<and>
   activeCount (snd (cleanup tick_time idle_min1_swept)) = 1"
proof -
  have "MinPoolSize (SetDefaults (c\<lparr>MinPoolSize := 0\<rparr>)) = 0"
    by (simp add: SetDefaults_def Let_def defMaxPoopSize_def)
  moreover have
    "MinPoolSize (cfg idle_min0) = 0 \<and> MaxPoolSize (cfg idle_min0) = 3 \<and>
     connections idle_min0 = [0, 1, 2] \<and> freeConn idle_min0 = [0, 1, 2] \<and>
     activeCount idle_min0 = 3 \<and>
     activeCount idle_min0_swept_twice = 0 \<and> connections idle_min0_swept_twice = [] \<and>
     MinPoolSize (cfg idle_min1) = 1 \<and> activeCount idle_min1 = 3 \<and>
     activeCount idle_min1_swept = 1 \<and> length (connections idle_min1_swept) = 1 \<and>
     fst (cleanup tick_time idle_min1_swept) = None \<and>
     activeCount (snd (cleanup tick_time idle_min1_swept)) = 1"
    by code_simp
  ultimately show ?thesis by simp
qed

section \<open>The count never exceeds the maximum\<close>

lemma closeConnection_keeps:
  "closeConnection conn p = (r, p') \<Longrightarrow>
     cfg p' = cfg p \<and> activeCount p' \<le> activeCount p \<and> freeConn p' = freeConn p \<and>
     nextID p' = nextID p \<and> freeConn_cap p' = freeConn_cap p \<and>
     (\<forall>x. busy (heap p' x) = busy (heap p x))"
  by (auto simp: closeConnection_def remove_at_def Let_def split: if_splits option.splits)

lemma closeConnection_snd:
  "cfg (snd (closeConnection conn p)) = cfg p"
  "activeCount (snd (closeConnection conn p)) \<le> activeCount p"
  "freeConn (snd (closeConnection conn p)) = freeConn p"
  "nextID (snd (closeConnection conn p)) = nextID p"
  "freeConn_cap (snd (closeConnection conn p)) = freeConn_cap p"
  "busy (heap (snd (closeConnection conn p)) x) = busy (heap p x)"
  using closeConnection_keeps[OF surjective_pairing, of conn p] by simp_all

lemma count_inv_step:
  assumes "pstep t a s = Some s'" and "count_inv s"
  shows "count_inv s'"
proof -
  from assms(2)
  have lk: "holds_pool (threads s t) \<longrightarrow> (\<forall>t'. t' \<noteq> t \<longrightarrow> \<not> holds_pool (threads s t'))"
    unfolding count_inv_def by (metis option.inject)
  show ?thesis
  proof (cases a)
    case GetRecv
    with assms lk show ?thesis
      by (auto simp: count_inv_def goto_def split: tstate.splits list.splits if_splits)
  next
    case (GetMark now)
    with assms lk show ?thesis
      by (auto simp: count_inv_def goto_def mark_busy_def split: tstate.splits if_splits)
  next
    case GetShutdown
    with assms lk show ?thesis
      by (auto simp: count_inv_def goto_def split: tstate.splits if_splits)
  next
    case GetTimeout
    with assms lk show ?thesis
      by (auto simp: count_inv_def goto_def split: tstate.splits if_splits)
  next
    case GetCanCreate
    with assms lk show ?thesis
      by (auto simp: count_inv_def goto_def split: tstate.splits if_splits)
  next
    case CallCreate
    with assms lk show ?thesis
      by (auto simp: count_inv_def goto_def split: tstate.splits if_splits)
  next
    case LockCreate
    with assms lk show ?thesis
      by (auto simp: count_inv_def goto_def split: tstate.splits if_splits)
  next
    case LockPool
    with assms lk show ?thesis
      by (auto simp: count_inv_def goto_def split: tstate.splits if_splits)
  next
    case (CreateCheck now)
    with assms lk show ?thesis
      by (auto simp: count_inv_def goto_def unlock_both_def Let_def
          split: tstate.splits if_splits)
  next
    case (CreateReady r)
    with assms lk show ?thesis
      by (auto simp: count_inv_def goto_def unlock_both_def Let_def
          split: tstate.splits if_splits option.splits)
  next
    case (RelClear now)
    with assms lk show ?thesis
      by (auto simp: count_inv_def goto_def clear_busy_def split: tstate.splits if_splits)
  next
    case RelSend
    show ?thesis
    proof (cases "threads s t")
      case (ReleaseCleared conn)
      note cc = closeConnection_snd(1,2)[of conn "pool s"]
      from RelSend ReleaseCleared assms lk cc show ?thesis
        by (auto simp: count_inv_def goto_def split: if_splits)
    qed (use RelSend assms in auto)
  next
    case CleanupLock
    with assms lk show ?thesis
      by (auto simp: count_inv_def goto_def split: tstate.splits if_splits)
  next
    case (CleanupCheck now)
    with assms lk show ?thesis
      by (auto simp: count_inv_def goto_def unlock_pool_def split: tstate.splits if_splits)
  next
    case CleanupInspect
    with assms lk show ?thesis
      by (auto simp: count_inv_def goto_def unlock_pool_def Let_def
          split: tstate.splits if_splits)
  next
    case CleanupTake
    with assms lk show ?thesis
      by (auto simp: count_inv_def goto_def split: tstate.splits list.splits if_splits)
  next
    case CleanupDecide
    with assms lk show ?thesis
      by (auto simp: count_inv_def goto_def unlock_pool_def
          split: tstate.splits if_splits option.splits prod.splits
          dest!: closeConnection_keeps)
  next
    case CloseCall
    with assms lk show ?thesis
      by (auto simp: count_inv_def goto_def split: tstate.splits if_splits)
  next
    case CloseLock
    with assms lk show ?thesis
      by (auto simp: count_inv_def goto_def split: tstate.splits if_splits)
  next
    case CloseIter
    with assms lk show ?thesis
      by (auto simp: count_inv_def goto_def unlock_pool_def
          split: tstate.splits if_splits option.splits prod.splits
          dest!: closeConnection_keeps)
  qed
qed

lemma count_inv_init: "count_inv (sys_init c)"
  by (simp add: count_inv_def sys_init_def new_pool_def SetDefaults_def Let_def
      defMaxPoopSize_def)

lemma cfg_step: "pstep t a s = Some s' \<Longrightarrow> cfg (pool s') = cfg (pool s)"
  by (cases a)
    (auto simp: goto_def unlock_both_def unlock_pool_def Let_def mark_busy_def clear_busy_def
      closeConnection_snd(1)
      split: tstate.splits list.splits if_splits option.splits prod.splits
      dest!: closeConnection_keeps)

lemma prun_count_inv:
  "prun tr s = Some s' \<Longrightarrow> count_inv s \<Longrightarrow> count_inv s' \<and> cfg (pool s') = cfg (pool s)"
proof (induction tr arbitrary: s)
  case Nil
  then show ?case by simp
next
  case (Cons e tr)
  obtain t a where e: "e = (t, a)" by (cases e)
  with Cons.prems obtain s1 where s1: "pstep t a s = Some s1" "prun tr s1 = Some s'"
    by (auto split: option.splits)
  from count_inv_step[OF s1(1) Cons.prems(2)] cfg_step[OF s1(1)] Cons.IH[OF s1(2)]
  show ?case by simp
qed

text \<open>
  Claim C2. Start from the pool object that \<open>NewCOMPool\<close> builds from a configuration
  \<open>c\<close> and let any number of goroutines run any interleaving of the steps of
  \<open>GetConnection\<close>, \<open>createConnection\<close>, \<open>ReleaseConnection\<close>, \<open>cleanup\<close> and \<open>Close\<close>. In
  every state reached, \<open>activeCount\<close> is at most \<open>MaxPoolSize\<close> of the normalised
  configuration, which no step changes. The count grows only in the tail of
  \<open>createConnection\<close>, whose size check ran under both locks and refused at
  \<open>activeCount \<ge> MaxPoolSize\<close>; between that check and the increment only a release
  that closes a connection can touch the count, and it lowers it.
\<close>

theorem activeCount_never_exceeds_max:
  "prun tr (sys_init c) = Some s \<Longrightarrow>
     activeCount (pool s) \<le> MaxPoolSize (cfg (pool s)) \<and> cfg (pool s) = SetDefaults c"
proof -
  assume r: "prun tr (sys_init c) = Some s"
  from prun_count_inv[OF r count_inv_init]
  have ci: "count_inv s" and cf: "cfg (pool s) = cfg (pool (sys_init c))"
    by blast+
  from ci have "activeCount (pool s) \<le> MaxPoolSize (cfg (pool s))"
    unfolding count_inv_def by blast
  moreover have "cfg (pool (sys_init c)) = SetDefaults c"
    by (simp add: sys_init_def new_pool_def)
  ultimately show ?thesis using cf by simp
qed

theorem activeCount_never_exceeds_max_witness:
  "prun race_trace (sys_init cfg_one) = Some (the (prun race_trace (sys_init cfg_one))) \<and>
   MaxPoolSize (cfg (pool (the (prun race_trace (sys_init cfg_one))))) = 1 \<and>
   activeCount (pool (the (prun race_trace (sys_init cfg_one)))) = 1 \<and>
   threads (the (prun race_trace (sys_init cfg_one))) 2 = Idle \<and>
   activeCount (pool (the (prun race_trace (sys_init cfg_one))))
     \<le> MaxPoolSize (cfg (pool (the (prun race_trace (sys_init cfg_one)))))"
proof -
  have e: "case prun race_trace (sys_init cfg_one) of
             None \<Rightarrow> False
           | Some s \<Rightarrow> activeCount (pool s) = 1 \<and> threads s 2 = Idle \<and>
                       MaxPoolSize (cfg (pool s)) = 1"
    by code_simp
  then obtain s where s: "prun race_trace (sys_init cfg_one) = Some s"
    by (cases "prun race_trace (sys_init cfg_one)") auto
  from activeCount_never_exceeds_max[OF s] e s show ?thesis by simp
qed

section \<open>Free and busy exclude each other\<close>

lemma owner_inv_at_iff: "owner_inv s \<longleftrightarrow> owner_inv_at t s"
proof
  assume a: "owner_inv s"
  show "owner_inv_at t s"
    unfolding owner_inv_at_def others_hands_def others_holding_def others_unique_def
  proof (intro conjI)
    from a show "distinct (freeConn (pool s))" unfolding owner_inv_def by blast
    from a show "\<forall>x \<in> set (freeConn (pool s)). x < nextID (pool s)" unfolding owner_inv_def by blast
    from a show "\<forall>x\<in>{x. \<exists>u. u \<noteq> t \<and> in_hand (threads s u) = Some x}.
       x < nextID (pool s) \<and> x \<notin> set (freeConn (pool s))" unfolding owner_inv_def by blast
    from a show "\<forall>u u' x. u \<noteq> t \<and> u' \<noteq> t \<and> in_hand (threads s u) = Some x \<and> in_hand (threads s u') = Some x \<longrightarrow> u = u'"
      unfolding owner_inv_def by blast
    from a show "\<forall>x. in_hand (threads s t) = Some x \<longrightarrow>
        x < nextID (pool s) \<and> x \<notin> set (freeConn (pool s)) \<and> x \<notin> {x. \<exists>u. u \<noteq> t \<and> in_hand (threads s u) = Some x}"
      unfolding owner_inv_def by blast
    from a show "\<forall>x. busy (heap (pool s) x) \<longrightarrow> threads s t = Holding x \<or> x \<in> {x. \<exists>u. u \<noteq> t \<and> threads s u = Holding x}"
      unfolding owner_inv_def by (simp, metis)
  qed
next
  assume a: "owner_inv_at t s"
  show "owner_inv s"
    unfolding owner_inv_def
  proof (intro conjI)
    from a show "distinct (freeConn (pool s))" unfolding owner_inv_at_def by blast
    from a show "\<forall>x \<in> set (freeConn (pool s)). x < nextID (pool s)" unfolding owner_inv_at_def by blast
    show "\<forall>u x. in_hand (threads s u) = Some x \<longrightarrow> x < nextID (pool s) \<and> x \<notin> set (freeConn (pool s))"
    proof (intro allI impI)
      fix u x assume h: "in_hand (threads s u) = Some x"
      show "x < nextID (pool s) \<and> x \<notin> set (freeConn (pool s))"
      proof (cases "u = t")
        case True with h a show ?thesis unfolding owner_inv_at_def by blast
      next
        case False
        with h have "x \<in> others_hands (threads s) t" unfolding others_hands_def by blast
        with a show ?thesis unfolding owner_inv_at_def by blast
      qed
    qed
    show "\<forall>u u' x. in_hand (threads s u) = Some x \<and> in_hand (threads s u') = Some x \<longrightarrow> u = u'"
    proof (intro allI impI)
      fix u u' x assume h: "in_hand (threads s u) = Some x \<and> in_hand (threads s u') = Some x"
      from a have m: "x \<notin> others_hands (threads s) t" if "in_hand (threads s t) = Some x"
        using that unfolding owner_inv_at_def by blast
      from a have ou: "others_unique (threads s) t" unfolding owner_inv_at_def by blast
      show "u = u'"
      proof (cases "u = t")
        case ut: True
        show ?thesis
        proof (cases "u' = t")
          case True with ut show ?thesis by simp
        next
          case False
          with h have "x \<in> others_hands (threads s) t" unfolding others_hands_def by blast
          with m ut h show ?thesis by blast
        qed
      next
        case ut: False
        show ?thesis
        proof (cases "u' = t")
          case True
          from ut h have "x \<in> others_hands (threads s) t" unfolding others_hands_def by blast
          with m True h show ?thesis by blast
        next
          case False
          with ut h ou show ?thesis unfolding others_unique_def by blast
        qed
      qed
    qed
    show "\<forall>x. busy (heap (pool s) x) \<longrightarrow> (\<exists>u. threads s u = Holding x)"
    proof (intro allI impI)
      fix x assume "busy (heap (pool s) x)"
      with a have "threads s t = Holding x \<or> x \<in> others_holding (threads s) t"
        unfolding owner_inv_at_def by blast
      then show "\<exists>u. threads s u = Holding x" unfolding others_holding_def by blast
    qed
  qed
qed

lemma others_frame:
  "others_hands (th(t := pc)) t = others_hands th t"
  "others_holding (th(t := pc)) t = others_holding th t"
  "others_unique (th(t := pc)) t = others_unique th t"
  by (auto simp: others_hands_def others_holding_def others_unique_def)


lemma owner_inv_at_step:
  assumes st: "pstep t a s = Some s'" and inv: "owner_inv_at t s"
  shows "owner_inv_at t s'"
proof (cases a)
  case GetRecv
  with st inv show ?thesis
    by (auto simp: owner_inv_at_def goto_def others_frame 
        split: tstate.splits list.splits if_splits option.splits prod.splits )
next
  case (GetMark now)
  with st inv show ?thesis
    by (auto simp: owner_inv_at_def goto_def others_frame mark_busy_def
        split: tstate.splits list.splits if_splits option.splits prod.splits )
next
  case GetShutdown
  with st inv show ?thesis
    by (auto simp: owner_inv_at_def goto_def others_frame 
        split: tstate.splits list.splits if_splits option.splits prod.splits )
next
  case GetTimeout
  with st inv show ?thesis
    by (auto simp: owner_inv_at_def goto_def others_frame 
        split: tstate.splits list.splits if_splits option.splits prod.splits )
next
  case GetCanCreate
  with st inv show ?thesis
    by (auto simp: owner_inv_at_def goto_def others_frame 
        split: tstate.splits list.splits if_splits option.splits prod.splits )
next
  case CallCreate
  with st inv show ?thesis
    by (auto simp: owner_inv_at_def goto_def others_frame 
        split: tstate.splits list.splits if_splits option.splits prod.splits )
next
  case LockCreate
  with st inv show ?thesis
    by (auto simp: owner_inv_at_def goto_def others_frame 
        split: tstate.splits list.splits if_splits option.splits prod.splits )
next
  case LockPool
  with st inv show ?thesis
    by (auto simp: owner_inv_at_def goto_def others_frame 
        split: tstate.splits list.splits if_splits option.splits prod.splits )
next
  case (CreateCheck now)
  with st inv show ?thesis
    by (auto simp: owner_inv_at_def goto_def others_frame unlock_both_def Let_def new_conn_def
        split: tstate.splits list.splits if_splits option.splits prod.splits ) force+
next
  case (CreateReady r)
  with st inv show ?thesis
    by (auto simp: owner_inv_at_def goto_def others_frame unlock_both_def Let_def
        split: tstate.splits list.splits if_splits option.splits prod.splits )
next
  case (RelClear now)
  with st inv show ?thesis
    by (auto simp: owner_inv_at_def goto_def others_frame clear_busy_def
        split: tstate.splits list.splits if_splits option.splits prod.splits )
next
  case RelSend
  with st inv show ?thesis
    by (auto simp: owner_inv_at_def goto_def others_frame closeConnection_snd
        split: tstate.splits list.splits if_splits option.splits prod.splits )
next
  case CleanupLock
  with st inv show ?thesis
    by (auto simp: owner_inv_at_def goto_def others_frame 
        split: tstate.splits list.splits if_splits option.splits prod.splits )
next
  case (CleanupCheck now)
  with st inv show ?thesis
    by (auto simp: owner_inv_at_def goto_def others_frame unlock_pool_def
        split: tstate.splits list.splits if_splits option.splits prod.splits )
next
  case CleanupInspect
  with st inv show ?thesis
    by (auto simp: owner_inv_at_def goto_def others_frame unlock_pool_def Let_def
        split: tstate.splits list.splits if_splits option.splits prod.splits )
next
  case CleanupTake
  with st inv show ?thesis
    by (auto simp: owner_inv_at_def goto_def others_frame 
        split: tstate.splits list.splits if_splits option.splits prod.splits )
next
  case CleanupDecide
  with st inv show ?thesis
    by (auto simp: owner_inv_at_def goto_def others_frame unlock_pool_def
        split: tstate.splits list.splits if_splits option.splits prod.splits dest!: closeConnection_keeps)
next
  case CloseCall
  with st inv show ?thesis
    by (auto simp: owner_inv_at_def goto_def others_frame 
        split: tstate.splits list.splits if_splits option.splits prod.splits )
next
  case CloseLock
  with st inv show ?thesis
    by (auto simp: owner_inv_at_def goto_def others_frame 
        split: tstate.splits list.splits if_splits option.splits prod.splits )
next
  case CloseIter
  with st inv show ?thesis
    by (auto simp: owner_inv_at_def goto_def others_frame unlock_pool_def
        split: tstate.splits list.splits if_splits option.splits prod.splits dest!: closeConnection_keeps)
qed

lemma owner_inv_step: "pstep t a s = Some s' \<Longrightarrow> owner_inv s \<Longrightarrow> owner_inv s'"
  using owner_inv_at_step owner_inv_at_iff by blast

lemma owner_inv_init: "owner_inv (sys_init c)"
  by (simp add: owner_inv_def sys_init_def new_pool_def unallocated_def)

lemma prun_owner_inv: "prun tr s = Some s' \<Longrightarrow> owner_inv s \<Longrightarrow> owner_inv s'"
proof (induction tr arbitrary: s)
  case Nil
  then show ?case by simp
next
  case (Cons e tr)
  obtain t a where e: "e = (t, a)" by (cases e)
  with Cons.prems obtain s1 where s1: "pstep t a s = Some s1" "prun tr s1 = Some s'"
    by (auto split: option.splits)
  from Cons.IH[OF s1(2) owner_inv_step[OF s1(1) Cons.prems(2)]] show ?case .
qed

text \<open>
  Claim C5. Start from the pool object that \<open>NewCOMPool\<close> builds and let any number
  of goroutines run any interleaving of the steps of \<open>GetConnection\<close>,
  \<open>createConnection\<close>, \<open>ReleaseConnection\<close>, \<open>cleanup\<close> and \<open>Close\<close>, every release being
  the deferred one of \<open>Execute\<close> for the connection its own acquisition returned. In every
  state reached, no connection in the free channel is marked busy. The order of the two
  halves of each operation is what keeps it so: a connection that \<open>GetConnection\<close> has
  received and not yet marked is out of the channel and not busy, a connection held by a
  caller is out of the channel, and a connection whose flag \<open>ReleaseConnection\<close> has
  cleared is not busy and not yet in the channel.
\<close>

theorem free_never_busy:
  "prun tr (sys_init c) = Some s \<Longrightarrow>
     (\<forall>x \<in> set (freeConn (pool s)). \<not> busy (heap (pool s) x)) \<and>
     (\<forall>t x. threads s t = GetReceived x \<longrightarrow>
        x \<notin> set (freeConn (pool s)) \<and> \<not> busy (heap (pool s) x)) \<and>
     (\<forall>t x. threads s t = Holding x \<longrightarrow> x \<notin> set (freeConn (pool s))) \<and>
     (\<forall>t x. threads s t = ReleaseCleared x \<longrightarrow>
        x \<notin> set (freeConn (pool s)) \<and> \<not> busy (heap (pool s) x))"
proof -
  assume r: "prun tr (sys_init c) = Some s"
  from prun_owner_inv[OF r owner_inv_init] have inv: "owner_inv s" .
  have hand: "x \<notin> set (freeConn (pool s))" if "in_hand (threads s t) = Some x" for t x
    using inv that unfolding owner_inv_def by blast
  have held: "threads s t = Holding x" if "in_hand (threads s t) = Some x" "busy (heap (pool s) x)"
    for t x
  proof -
    from inv that(2) obtain u where u: "threads s u = Holding x"
      unfolding owner_inv_def by blast
    then have "in_hand (threads s u) = Some x" by simp
    with inv that(1) have "u = t" unfolding owner_inv_def by blast
    with u show ?thesis by simp
  qed
  have a: "\<not> busy (heap (pool s) x)" if "x \<in> set (freeConn (pool s))" for x
  proof
    assume "busy (heap (pool s) x)"
    with inv obtain u where "threads s u = Holding x" unfolding owner_inv_def by blast
    then have "in_hand (threads s u) = Some x" by simp
    from hand[OF this] that show False by simp
  qed
  have b: "x \<notin> set (freeConn (pool s)) \<and> \<not> busy (heap (pool s) x)"
    if "threads s t = GetReceived x" for t x
    using hand[of t x] held[of t x] that by auto
  have c: "x \<notin> set (freeConn (pool s))" if "threads s t = Holding x" for t x
    using hand[of t x] that by simp
  have d: "x \<notin> set (freeConn (pool s)) \<and> \<not> busy (heap (pool s) x)"
    if "threads s t = ReleaseCleared x" for t x
    using hand[of t x] held[of t x] that by auto
  from a b c d show ?thesis by blast
qed

theorem free_never_busy_witness:
  "prun released_trace (sys_init cfg_one) =
     Some (the (prun released_trace (sys_init cfg_one))) \<and>
   freeConn (pool (the (prun released_trace (sys_init cfg_one)))) = [0] \<and>
   \<not> busy (heap (pool (the (prun released_trace (sys_init cfg_one)))) 0) \<and>
   prun held_trace (sys_init cfg_one) = Some (the (prun held_trace (sys_init cfg_one))) \<and>
   threads (the (prun held_trace (sys_init cfg_one))) 1 = Holding 0 \<and>
   busy (heap (pool (the (prun held_trace (sys_init cfg_one)))) 0) \<and>
   0 \<notin> set (freeConn (pool (the (prun held_trace (sys_init cfg_one)))))"
proof -
  have e1: "case prun released_trace (sys_init cfg_one) of
              None \<Rightarrow> False
            | Some s \<Rightarrow> freeConn (pool s) = [0]"
    by code_simp
  then obtain s1 where s1: "prun released_trace (sys_init cfg_one) = Some s1"
    by (cases "prun released_trace (sys_init cfg_one)") auto
  have e2: "case prun held_trace (sys_init cfg_one) of
              None \<Rightarrow> False
            | Some s \<Rightarrow> threads s 1 = Holding 0 \<and> busy (heap (pool s) 0)"
    by code_simp
  then obtain s2 where s2: "prun held_trace (sys_init cfg_one) = Some s2"
    by (cases "prun held_trace (sys_init cfg_one)") auto
  from free_never_busy[OF s1] e1 s1
  have "freeConn (pool s1) = [0] \<and> \<not> busy (heap (pool s1) 0)" by simp
  moreover from free_never_busy[OF s2] e2 s2
  have "threads s2 1 = Holding 0 \<and> busy (heap (pool s2) 0) \<and> 0 \<notin> set (freeConn (pool s2))"
    by auto
  ultimately show ?thesis using s1 s2 by simp
qed

section \<open>ExecuteCommand: release and failure payload\<close>

lemma send_all_flags:
  "send_all ch rs s = Some s' \<Longrightarrow> wconn s' = wconn s"
  by (induction rs arbitrary: s) (auto split: if_splits)

lemma wstep_flags:
  "wstep be e s = Some s' \<Longrightarrow>
     busy (wconn s') = busy (wconn s) \<and> lastUsed (wconn s') = lastUsed (wconn s) \<and>
     useCount (wconn s') = useCount (wconn s) \<and> conn_id (wconn s') = conn_id (wconn s)"
  by (cases e)
    (auto simp: Let_def split: if_splits wpc.splits list.splits option.splits prod.splits
      dest: send_all_flags)

lemma wrun_flags:
  "wrun be es s = Some s' \<Longrightarrow>
     busy (wconn s') = busy (wconn s) \<and> lastUsed (wconn s') = lastUsed (wconn s) \<and>
     useCount (wconn s') = useCount (wconn s) \<and> conn_id (wconn s') = conn_id (wconn s)"
proof (induction es arbitrary: s)
  case Nil
  then show ?case by simp
next
  case (Cons e es)
  then obtain s1 where s1: "wstep be e s = Some s1" "wrun be es s1 = Some s'"
    by (auto split: option.splits)
  from wstep_flags[OF s1(1)] Cons.IH[OF s1(2)] show ?case by simp
qed

lemma conn_ExecuteCommand_busy:
  "conn_ExecuteCommand be sched command params c = Some (r, c') \<Longrightarrow> busy c' = busy c"
  unfolding conn_ExecuteCommand_def Let_def
  by (auto split: option.splits list.splits any.splits dest!: wrun_flags simp: winit_def simp del: wrun.simps)

lemma ReleaseConnection_not_busy:
  "\<not> busy (heap (snd (ReleaseConnection now conn p)) conn)"
  using closeConnection_keeps[OF surjective_pairing, of conn "clear_busy now conn p"]
  by (simp add: ReleaseConnection_def Let_def clear_busy_def)

lemma Execute_cases:
  "Execute fn evs now p = Some (out, p') \<Longrightarrow> GetConnection evs p = Some (Inr conn, p1) \<Longrightarrow>
     \<exists>r p2. fn conn p1 = Some (r, p2) \<and> p' = snd (ReleaseConnection now conn p2)"
  unfolding Execute_def
  by (fastforce split: option.splits prod.splits)

text \<open>
  Claim C4. Whenever \<open>COMPool.ExecuteCommand\<close> comes back after \<open>GetConnection\<close> has
  handed it a connection, be it with the result of the command, with the error of the
  backend or of the conversion, or by a panic, \<open>ReleaseConnection\<close> has run on that
  connection after the command: the pool it leaves is the one \<open>ReleaseConnection\<close>
  leaves, and in it the connection is not marked busy.
\<close>

theorem ExecuteCommand_releases:
  assumes "ExecuteCommand be sched evs now command params p = Some (out, p')"
    and "GetConnection evs p = Some (Inr conn, p1)"
  shows "(\<exists>r p2. exec_fn be sched command params conn p1 = Some (r, p2) \<and>
            p' = snd (ReleaseConnection now conn p2)) \<and>
         \<not> busy (heap p' conn)"
proof -
  from assms(1) obtain out1 where e: "Execute (exec_fn be sched command params) evs now p = Some (out1, p')"
    unfolding ExecuteCommand_def
    by (auto split: option.splits prod.splits outcome.splits any.splits)
  from Execute_cases[OF e assms(2)]
  obtain r p2 where "exec_fn be sched command params conn p1 = Some (r, p2)"
    "p' = snd (ReleaseConnection now conn p2)"
    by auto
  then show ?thesis using ReleaseConnection_not_busy by blast
qed

theorem ExecuteCommand_releases_witness:
  "fst (the (GetConnection [FreeConnReady 5] pool_one)) = Inr 0 \<and>
   busy (heap (snd (the (GetConnection [FreeConnReady 5] pool_one))) 0) \<and>
   fst (the failed_call) = Returned (Some [], Some (BackendError ''method failed'')) \<and>
   freeConn (snd (the failed_call)) = [0] \<and>
   \<not> busy (heap (snd (the failed_call)) 0)"
proof -
  have g: "case GetConnection [FreeConnReady 5] pool_one of
             Some (Inr conn, p1) \<Rightarrow> conn = 0 \<and> busy (heap p1 0)
           | _ \<Rightarrow> False"
    by code_simp
  then obtain p1 where p1: "GetConnection [FreeConnReady 5] pool_one = Some (Inr 0, p1)"
    and b1: "busy (heap p1 0)"
    by (auto split: option.splits prod.splits sum.splits)
  have f: "case failed_call of
             Some (out, p') \<Rightarrow>
               out = Returned (Some [], Some (BackendError ''method failed'')) \<and>
               freeConn p' = [0]
           | None \<Rightarrow> False"
    by code_simp
  then obtain out p' where c: "failed_call = Some (out, p')"
    and o: "out = Returned (Some [], Some (BackendError ''method failed''))"
    and fr: "freeConn p' = [0]"
    by (auto split: option.splits prod.splits)
  from ExecuteCommand_releases[OF c[unfolded failed_call_def] p1]
  have nb: "\<not> busy (heap p' 0)" by blast
  have t: "fst (the failed_call) = Returned (Some [], Some (BackendError ''method failed''))"
    "snd (the failed_call) = p'"
    unfolding c o by simp_all
  have u: "fst (the (GetConnection [FreeConnReady 5] pool_one)) = Inr 0"
    "snd (the (GetConnection [FreeConnReady 5] pool_one)) = p1"
    unfolding p1 by simp_all
  from b1 fr nb show ?thesis unfolding t u by simp
qed

text \<open>
  Claim C10. Whenever \<open>COMPool.ExecuteCommand\<close> returns, the byte slice is not \<open>nil\<close>;
  when the error is not \<open>nil\<close> the slice is the empty slice \<open>[]byte{}\<close>; and a slice with
  content comes with a \<open>nil\<close> error only. In particular an error of \<open>GetConnection\<close> is
  returned as it is, with the empty slice. (The last clause of the claim is read as
  speaking of a payload with content, since the claim itself says that the slice of a
  failure is empty and not \<open>nil\<close>.)
\<close>

theorem ExecuteCommand_failure_payload:
  "(ExecuteCommand be sched evs now command params p = Some (Returned (bytes, err), p') \<longrightarrow>
      bytes \<noteq> None \<and> (err \<noteq> None \<longrightarrow> bytes = Some []) \<and> (bytes \<noteq> Some [] \<longrightarrow> err = None)) \<and>
   (GetConnection evs p = Some (Inl e, p1) \<longrightarrow>
      ExecuteCommand be sched evs now command params p = Some (Returned (Some [], Some e), p1))"
  unfolding ExecuteCommand_def Execute_def
  by (auto split: option.splits prod.splits outcome.splits any.splits sum.splits)


theorem ExecuteCommand_failure_payload_witness:
  "failed_call = Some (Returned (Some [], Some (BackendError ''method failed'')), snd (the failed_call)) \<and>
   echo_call = Some (Returned (Some ''ping'', None), snd (the echo_call)) \<and>
   GetConnection [ShutdownClosed] (snd (Close pool_one)) =
     Some (Inl PoolShutdown, snd (the (GetConnection [ShutdownClosed] (snd (Close pool_one))))) \<and>
   fst (the shutdown_call) = Returned (Some [], Some PoolShutdown)"
proof -
  have f: "case failed_call of
             Some (Returned (bytes, err), p') \<Rightarrow>
               bytes = Some [] \<and> err = Some (BackendError ''method failed'')
           | _ \<Rightarrow> False"
    by code_simp
  then obtain bytes err p' where c: "failed_call = Some (Returned (bytes, err), p')"
    and e: "err = Some (BackendError ''method failed'')"
    by (auto split: option.splits prod.splits outcome.splits)
  from ExecuteCommand_failure_payload[of failing_backend "[Pull, Finish]" "[FreeConnReady 5]" 9
      "''TestMethod''" "''ping''" pool_one bytes err p'] c e
  have 1: "failed_call = Some (Returned (Some [], Some (BackendError ''method failed'')), snd (the failed_call))"
    by (simp add: failed_call_def)
  have h: "case echo_call of
             Some (Returned (bytes, err), p') \<Rightarrow> bytes = Some ''ping''
           | _ \<Rightarrow> False"
    by code_simp
  then obtain bytes2 err2 p2 where c2: "echo_call = Some (Returned (bytes2, err2), p2)"
    and e2: "bytes2 = Some ''ping''"
    by (auto split: option.splits prod.splits outcome.splits)
  from ExecuteCommand_failure_payload[of echo_backend "[Pull, Finish]" "[FreeConnReady 5]" 9
      "''TestMethod''" "''ping''" pool_one bytes2 err2 p2] c2 e2
  have 2: "echo_call = Some (Returned (Some ''ping'', None), snd (the echo_call))"
    by (simp add: echo_call_def)
  have g: "case GetConnection [ShutdownClosed] (snd (Close pool_one)) of
             Some (Inl e, p1) \<Rightarrow> e = PoolShutdown
           | _ \<Rightarrow> False"
    by code_simp
  then obtain p1 where
    g1: "GetConnection [ShutdownClosed] (snd (Close pool_one)) = Some (Inl PoolShutdown, p1)"
    by (auto split: option.splits prod.splits sum.splits)
  from ExecuteCommand_failure_payload[of echo_backend "[Pull, Finish]" "[ShutdownClosed]" 9
      "''TestMethod''" "''ping''" "snd (Close pool_one)" undefined undefined undefined
      PoolShutdown p1] g1
  have 3: "fst (the shutdown_call) = Returned (Some [], Some PoolShutdown)"
    by (simp add: shutdown_call_def)
  from 1 2 3 g1 show ?thesis by simp
qed

section \<open>GetConnection\<close>

lemma createConnection_ok:
  "activeCount p < MaxPoolSize (cfg p) \<Longrightarrow>
     \<exists>p'. createConnection None now p = (None, p') \<and>
          connections p' = connections p @ [nextID p] \<and>
          activeCount p' = activeCount p + 1"
  by (simp add: createConnection_def Let_def)

lemma createConnection_fail:
  "activeCount p < MaxPoolSize (cfg p) \<Longrightarrow>
     \<exists>p'. createConnection (Some err) now p = (Some (InitConnFailed (nextID p) err), p') \<and>
          connections p' = connections p \<and> activeCount p' = activeCount p"
  by (simp add: createConnection_def Let_def)

lemma GetConnection_success:
  "GetConnection evs p = Some (Inr conn, p') \<Longrightarrow>
     \<exists>now q rest. freeConn q = conn # rest \<and> p' = mark_busy now conn (q\<lparr>freeConn := rest\<rparr>)"
proof (induction evs p rule: GetConnection.induct)
  case (1 p)
  then show ?case by simp
next
  case (2 now evs p)
  then show ?case by (auto split: list.splits)
next
  case (3 now ready evs p)
  then show ?case by (auto split: if_splits prod.splits option.splits)
next
  case (4 evs p)
  then show ?case by (auto split: if_splits)
qed

text \<open>
  Claim C3 as stated fails: in the pool of the scenario right after construction (no
  connection, maximum 3) the timer fires, the count is below the maximum, and the worker
  of the connection that \<open>createConnection\<close> starts reports an error. \<open>GetConnection\<close>
  neither retries nor returns a timeout error: it returns the creation error, and no
  resource has been added.
\<close>

theorem GetConnection_creation_failure:
  "freeConn empty_pool = [] \<and> \<not> shutdown empty_pool \<and>
   activeCount empty_pool < MaxPoolSize (cfg empty_pool) \<and>
   fst (the (GetConnection [TimerFired 0 (Some connect_failed), FreeConnReady 1] empty_pool)) =
     Inl (CreateNewConnFailed (InitConnFailed 0 connect_failed)) \<and>
   fst (the (GetConnection [TimerFired 0 (Some connect_failed), FreeConnReady 1] empty_pool)) \<noteq>
     Inl WaitTimeout \<and>
   connections (snd (the (GetConnection [TimerFired 0 (Some connect_failed), FreeConnReady 1]
     empty_pool))) = [] \<and>
   activeCount (snd (the (GetConnection [TimerFired 0 (Some connect_failed), FreeConnReady 1]
     empty_pool))) = 0"
  by code_simp

text \<open>
  Claim C3, amended. \<open>GetConnection\<close> takes the oldest connection of the free channel
  when the receive case of its \<open>select\<close> runs, which is at once when a connection is free.
  When the timer fires (nothing free for \<open>WaitConnTimeout\<close>, no shutdown) and
  \<open>activeCount < MaxPoolSize\<close>, it calls \<open>createConnection\<close>: if the worker of the new
  connection initialises, exactly one connection has been added and the acquisition starts
  over on the pool so extended; if the worker reports an error, \<open>GetConnection\<close> fails with
  that error wrapped as a creation error, with no retry and no connection added. When the
  timer fires and the count is not below the maximum, it fails with the timeout error and
  changes nothing. When the shutdown case runs, it fails with the shutdown error and
  changes nothing. A connection it returns has been taken out of the free channel and then
  marked busy, with its last-used time set to the time of the marking and its use counter
  one higher than before.
\<close>

theorem GetConnection_cases:
  "(freeConn p = conn # rest \<longrightarrow>
      GetConnection (FreeConnReady now # evs) p =
        Some (Inr conn, mark_busy now conn (p\<lparr>freeConn := rest\<rparr>))) \<and>
   (freeConn p = [] \<and> \<not> shutdown p \<and> activeCount p < MaxPoolSize (cfg p) \<longrightarrow>
      (\<exists>p1. createConnection None now p = (None, p1) \<and>
            connections p1 = connections p @ [nextID p] \<and>
            activeCount p1 = activeCount p + 1 \<and>
            GetConnection (TimerFired now None # evs) p = GetConnection evs p1)) \<and>
   (freeConn p = [] \<and> \<not> shutdown p \<and> activeCount p < MaxPoolSize (cfg p) \<longrightarrow>
      (\<exists>p1. GetConnection (TimerFired now (Some err) # evs) p =
              Some (Inl (CreateNewConnFailed (InitConnFailed (nextID p) err)), p1) \<and>
            connections p1 = connections p \<and> activeCount p1 = activeCount p)) \<and>
   (freeConn p = [] \<and> \<not> shutdown p \<and> \<not> activeCount p < MaxPoolSize (cfg p) \<longrightarrow>
      GetConnection (TimerFired now ready # evs) p = Some (Inl WaitTimeout, p)) \<and>
   (shutdown p \<longrightarrow> GetConnection (ShutdownClosed # evs) p = Some (Inl PoolShutdown, p)) \<and>
   (GetConnection evs p = Some (Inr c, p') \<longrightarrow>
      busy (heap p' c) \<and>
      (\<exists>t q rest'. freeConn q = c # rest' \<and> p' = mark_busy t c (q\<lparr>freeConn := rest'\<rparr>) \<and>
         lastUsed (heap p' c) = t \<and> useCount (heap p' c) = useCount (heap q c) + 1))"
proof (intro conjI impI)
  assume "freeConn p = conn # rest"
  then show "GetConnection (FreeConnReady now # evs) p =
      Some (Inr conn, mark_busy now conn (p\<lparr>freeConn := rest\<rparr>))"
    by simp
next
  assume a: "freeConn p = [] \<and> \<not> shutdown p \<and> activeCount p < MaxPoolSize (cfg p)"
  then obtain p1 where p1: "createConnection None now p = (None, p1)"
    "connections p1 = connections p @ [nextID p]" "activeCount p1 = activeCount p + 1"
    using createConnection_ok[of p now] by blast
  with a have "GetConnection (TimerFired now None # evs) p = GetConnection evs p1"
    by simp
  with p1 show "\<exists>p1. createConnection None now p = (None, p1) \<and>
      connections p1 = connections p @ [nextID p] \<and> activeCount p1 = activeCount p + 1 \<and>
      GetConnection (TimerFired now None # evs) p = GetConnection evs p1"
    by blast
next
  assume a: "freeConn p = [] \<and> \<not> shutdown p \<and> activeCount p < MaxPoolSize (cfg p)"
  then obtain p1 where p1:
    "createConnection (Some err) now p = (Some (InitConnFailed (nextID p) err), p1)"
    "connections p1 = connections p" "activeCount p1 = activeCount p"
    using createConnection_fail[of p err now] by blast
  with a have "GetConnection (TimerFired now (Some err) # evs) p =
      Some (Inl (CreateNewConnFailed (InitConnFailed (nextID p) err)), p1)"
    by simp
  with p1 show "\<exists>p1. GetConnection (TimerFired now (Some err) # evs) p =
        Some (Inl (CreateNewConnFailed (InitConnFailed (nextID p) err)), p1) \<and>
      connections p1 = connections p \<and> activeCount p1 = activeCount p"
    by blast
next
  assume "freeConn p = [] \<and> \<not> shutdown p \<and> \<not> activeCount p < MaxPoolSize (cfg p)"
  then show "GetConnection (TimerFired now ready # evs) p = Some (Inl WaitTimeout, p)"
    by simp
next
  assume "shutdown p"
  then show "GetConnection (ShutdownClosed # evs) p = Some (Inl PoolShutdown, p)"
    by simp
next
  assume g: "GetConnection evs p = Some (Inr c, p')"
  from GetConnection_success[OF g] obtain t q rest' where
    q: "freeConn q = c # rest'" "p' = mark_busy t c (q\<lparr>freeConn := rest'\<rparr>)"
    by blast
  then show "busy (heap p' c)" by (simp add: mark_busy_def)
  from q have "lastUsed (heap p' c) = t \<and> useCount (heap p' c) = useCount (heap q c) + 1"
    by (simp add: mark_busy_def)
  with q show "\<exists>t q rest'. freeConn q = c # rest' \<and> p' = mark_busy t c (q\<lparr>freeConn := rest'\<rparr>) \<and>
      lastUsed (heap p' c) = t \<and> useCount (heap p' c) = useCount (heap q c) + 1"
    by blast
qed

theorem GetConnection_cases_witness:
  "freeConn pool_one = [0] \<and>
   GetConnection [FreeConnReady 5] pool_one =
     Some (Inr 0, mark_busy 5 0 (pool_one\<lparr>freeConn := []\<rparr>)) \<and>
   busy (heap (mark_busy 5 0 (pool_one\<lparr>freeConn := []\<rparr>)) 0) \<and>
   freeConn empty_pool = [] \<and> \<not> shutdown empty_pool \<and>
   activeCount empty_pool < MaxPoolSize (cfg empty_pool) \<and>
   GetConnection [TimerFired 0 None, FreeConnReady 1] empty_pool =
     GetConnection [FreeConnReady 1] (snd (createConnection None 0 empty_pool)) \<and>
   fst (the (GetConnection [TimerFired 0 None, FreeConnReady 1] empty_pool)) = Inr 0 \<and>
   activeCount (snd (createConnection None 0 empty_pool)) = 1 \<and>
   fst (the (GetConnection [TimerFired 0 (Some connect_failed)] empty_pool)) =
     Inl (CreateNewConnFailed (InitConnFailed 0 connect_failed)) \<and>
   freeConn busy_pool = [] \<and> \<not> shutdown busy_pool \<and>
   \<not> activeCount busy_pool < MaxPoolSize (cfg busy_pool) \<and>
   GetConnection [TimerFired 7 None] busy_pool = Some (Inl WaitTimeout, busy_pool) \<and>
   shutdown closed_pool \<and>
   GetConnection [ShutdownClosed] closed_pool = Some (Inl PoolShutdown, closed_pool)"
proof -
  have h1: "freeConn pool_one = [0]" by code_simp
  have h2: "freeConn empty_pool = [] \<and> \<not> shutdown empty_pool \<and>
      activeCount empty_pool < MaxPoolSize (cfg empty_pool)"
    by code_simp
  have h2n: "nextID empty_pool = 0" "activeCount empty_pool = 0" by code_simp+
  have h3: "freeConn busy_pool = [] \<and> \<not> shutdown busy_pool \<and>
      \<not> activeCount busy_pool < MaxPoolSize (cfg busy_pool)"
    by code_simp
  have h4: "shutdown closed_pool" by code_simp
  have h5: "fst (the (GetConnection [FreeConnReady 1] (snd (createConnection None 0 empty_pool))))
      = Inr 0"
    by code_simp
  note t1 = GetConnection_cases[where p = pool_one and conn = 0 and rest = "[]" and now = 5
      and evs = "[]" and c = 0 and p' = "mark_busy 5 0 (pool_one\<lparr>freeConn := []\<rparr>)"]
  from t1 h1 have a: "GetConnection [FreeConnReady 5] pool_one =
      Some (Inr 0, mark_busy 5 0 (pool_one\<lparr>freeConn := []\<rparr>))"
    by blast
  from t1 have "GetConnection [] pool_one = Some (Inr 0, mark_busy 5 0 (pool_one\<lparr>freeConn := []\<rparr>))
      \<longrightarrow> busy (heap (mark_busy 5 0 (pool_one\<lparr>freeConn := []\<rparr>)) 0)"
    by blast
  have a2: "busy (heap (mark_busy 5 0 (pool_one\<lparr>freeConn := []\<rparr>)) 0)"
    using GetConnection_cases[where evs = "[FreeConnReady 5]" and p = pool_one and c = 0
        and p' = "mark_busy 5 0 (pool_one\<lparr>freeConn := []\<rparr>)"] a
    by blast
  note t2 = GetConnection_cases[where p = empty_pool and now = 0 and evs = "[FreeConnReady 1]"
      and err = connect_failed]
  from t2 h2 obtain p1 where p1: "createConnection None 0 empty_pool = (None, p1)"
    "activeCount p1 = activeCount empty_pool + 1"
    "GetConnection [TimerFired 0 None, FreeConnReady 1] empty_pool =
       GetConnection [FreeConnReady 1] p1"
    by blast
  from p1 have sp: "snd (createConnection None 0 empty_pool) = p1" by simp
  from p1 h5 h2n have b:
    "GetConnection [TimerFired 0 None, FreeConnReady 1] empty_pool =
       GetConnection [FreeConnReady 1] (snd (createConnection None 0 empty_pool))"
    "fst (the (GetConnection [TimerFired 0 None, FreeConnReady 1] empty_pool)) = Inr 0"
    "activeCount (snd (createConnection None 0 empty_pool)) = 1"
    unfolding sp by simp_all
  note t3 = GetConnection_cases[where p = empty_pool and now = 0 and evs = "[]"
      and err = connect_failed]
  from t3 h2 obtain p2 where
    "GetConnection [TimerFired 0 (Some connect_failed)] empty_pool =
       Some (Inl (CreateNewConnFailed (InitConnFailed (nextID empty_pool) connect_failed)), p2)"
    by blast
  with h2n have c:
    "fst (the (GetConnection [TimerFired 0 (Some connect_failed)] empty_pool)) =
       Inl (CreateNewConnFailed (InitConnFailed 0 connect_failed))"
    by (simp del: GetConnection.simps)
  from GetConnection_cases[where p = busy_pool and now = 7 and evs = "[]" and ready = None] h3
  have d: "GetConnection [TimerFired 7 None] busy_pool = Some (Inl WaitTimeout, busy_pool)"
    by blast
  from GetConnection_cases[where p = closed_pool and evs = "[]"] h4
  have e: "GetConnection [ShutdownClosed] closed_pool = Some (Inl PoolShutdown, closed_pool)"
    by blast
  from h1 a a2 h2 b c h3 d h4 e show ?thesis by blast
qed

end
